theory Spec2Isabelle
  imports Complex_Main
begin

section \<open>The host language: JavaScript numbers\<close>

text \<open>
  \<^verbatim>\<open>money.js\<close> computes with the numbers of its host language, IEEE 754 binary64
  values. A finite number is modelled by the rational it denotes; the two zeros are
  identified (they are \<^verbatim>\<open>===\<close>, print alike, and the code never divides by an
  amount). Every arithmetic result is rounded to the nearest representable value, ties
  to the even significand, by \<open>Number_value\<close>.
\<close>

datatype jsnum = NaN | PosInf | NegInf | Fin rat

definition pow_int :: "rat \<Rightarrow> int \<Rightarrow> rat" where
  "pow_int b e = (if 0 \<le> e then b ^ nat e else 1 / b ^ nat (- e))"

text \<open>\<open>binade a\<close> is the exponent \<open>e\<close> with \<open>2 ^ e \<le> a < 2 ^ (e + 1)\<close>, for \<open>a > 0\<close>.\<close>

function binade :: "rat \<Rightarrow> int" where
  "binade a = (if a \<le> 0 then 0 else if 2 \<le> a then binade (a / 2) + 1
               else if a < 1 then binade (a * 2) - 1 else 0)"
  by pat_completeness auto

text \<open>\<open>decade a\<close> is the exponent \<open>e\<close> with \<open>10 ^ e \<le> a < 10 ^ (e + 1)\<close>, for \<open>a > 0\<close>.\<close>

function decade :: "rat \<Rightarrow> int" where
  "decade a = (if a \<le> 0 then 0 else if 10 \<le> a then decade (a / 10) + 1
               else if a < 1 then decade (a * 10) - 1 else 0)"
  by pat_completeness auto

lemma ceiling_scaled_less:
  fixes a b :: rat
  assumes a: "0 < a" "a < 1" and b: "2 \<le> b"
  shows "\<lceil>1 / (a * b)\<rceil> \<le> \<lceil>1 / a\<rceil> - 1"
proof -
  define t where "t = 1 / a"
  have t: "1 < t" using a by (simp add: t_def)
  have eq: "1 / (a * b) = t / b" by (simp add: t_def)
  have "t / b \<le> of_int (\<lceil>t\<rceil> - 1)"
  proof (cases "t \<le> b")
    case True
    have "2 \<le> \<lceil>t\<rceil>" using t by linarith
    moreover have "t / b \<le> 1" using True b by (simp add: field_simps)
    ultimately show ?thesis by linarith
  next
    case False
    then have big: "2 \<le> t" using b by linarith
    have "t / b \<le> t / 2" using t b by (simp add: field_simps)
    also have "\<dots> \<le> t - 1" using big by (simp add: field_simps)
    also have "\<dots> \<le> of_int (\<lceil>t\<rceil> - 1)" by simp
    finally show ?thesis .
  qed
  then have "\<lceil>t / b\<rceil> \<le> \<lceil>t\<rceil> - 1" by (rule ceiling_le)
  then show ?thesis unfolding eq unfolding t_def .
qed

termination binade
proof (relation "measure (\<lambda>a. nat (2 * \<lceil>1 / a\<rceil> + \<lfloor>a\<rfloor>))", goal_cases)
  case 1
  show ?case by simp
next
  case (2 a)
  then have "\<lceil>1 / (a / 2)\<rceil> = 1" "\<lceil>1 / a\<rceil> = 1"
    by (auto simp: ceiling_eq_iff field_simps)
  moreover have "\<lfloor>a / 2\<rfloor> < \<lfloor>a\<rfloor>" using 2 by linarith
  moreover have "0 \<le> \<lfloor>a / 2\<rfloor>" using 2 by simp
  ultimately show ?case unfolding in_measure zless_nat_conj by linarith
next
  case (3 a)
  then have a: "0 < a" "a < 1" by auto
  have "\<lfloor>a\<rfloor> = 0" using a by (simp add: floor_eq_iff)
  moreover have "\<lfloor>a * 2\<rfloor> \<le> 1" using a by (simp add: floor_le_iff)
  moreover have "0 \<le> \<lfloor>a * 2\<rfloor>" using a by simp
  moreover have "\<lceil>1 / (a * 2)\<rceil> \<le> \<lceil>1 / a\<rceil> - 1"
    using ceiling_scaled_less [OF a, of 2] by simp
  moreover have "0 < \<lceil>1 / (a * 2)\<rceil>" using a by simp
  ultimately show ?case unfolding in_measure zless_nat_conj by linarith
qed

termination decade
proof (relation "measure (\<lambda>a. nat (10 * \<lceil>1 / a\<rceil> + \<lfloor>a\<rfloor>))", goal_cases)
  case 1
  show ?case by simp
next
  case (2 a)
  then have "\<lceil>1 / (a / 10)\<rceil> = 1" "\<lceil>1 / a\<rceil> = 1"
    by (auto simp: ceiling_eq_iff field_simps)
  moreover have "\<lfloor>a / 10\<rfloor> < \<lfloor>a\<rfloor>" using 2 by linarith
  moreover have "0 \<le> \<lfloor>a / 10\<rfloor>" using 2 by simp
  ultimately show ?case unfolding in_measure zless_nat_conj by linarith
next
  case (3 a)
  then have a: "0 < a" "a < 1" by auto
  have "\<lfloor>a\<rfloor> = 0" using a by (simp add: floor_eq_iff)
  moreover have "\<lfloor>a * 10\<rfloor> \<le> 9" using a by (simp add: floor_le_iff)
  moreover have "0 \<le> \<lfloor>a * 10\<rfloor>" using a by simp
  moreover have "\<lceil>1 / (a * 10)\<rceil> \<le> \<lceil>1 / a\<rceil> - 1"
    using ceiling_scaled_less [OF a, of 10] by simp
  moreover have "0 < \<lceil>1 / (a * 10)\<rceil>" using a by simp
  ultimately show ?case unfolding in_measure zless_nat_conj by linarith
qed

declare binade.simps [simp del] decade.simps [simp del]

definition round_half_even :: "rat \<Rightarrow> int" where
  "round_half_even x = (let f = \<lfloor>x\<rfloor>; r = x - of_int f
     in if r < 1 / 2 then f else if 1 / 2 < r then f + 1 else if even f then f else f + 1)"

text \<open>
  Rounding of a positive rational to the binary64 grid: 53 significant bits in the
  normal range, the fixed spacing \<open>2 ^ - 1074\<close> below \<open>2 ^ - 1022\<close>, where the
  exponent of the grid stays at \<open>- 1022\<close>.
\<close>

definition grid :: "rat \<Rightarrow> int" where
  "grid a = max (binade a) (- 1022)"

definition round_pos :: "rat \<Rightarrow> rat" where
  "round_pos a = (let u = pow_int 2 (grid a - 52) in of_int (round_half_even (a / u)) * u)"

text \<open>
  The Number value for a mathematical value: a magnitude of at least
  \<open>2 ^ 1024 - 2 ^ 970\<close> (the largest finite number plus half a unit in its last place)
  overflows to an infinity.
\<close>

definition Number_value :: "rat \<Rightarrow> jsnum" where
  "Number_value q = (if q = 0 then Fin 0
     else if 2 ^ 1024 - 2 ^ 970 \<le> \<bar>q\<bar> then (if 0 < q then PosInf else NegInf)
     else Fin (sgn q * round_pos \<bar>q\<bar>))"

subsection \<open>Arithmetic and the Math functions the code calls\<close>

definition fmul :: "jsnum \<Rightarrow> jsnum \<Rightarrow> jsnum" where
  "fmul x y = (case (x, y) of
       (NaN, _) \<Rightarrow> NaN
     | (_, NaN) \<Rightarrow> NaN
     | (Fin p, Fin q) \<Rightarrow> Number_value (p * q)
     | (Fin p, PosInf) \<Rightarrow> (if p = 0 then NaN else if 0 < p then PosInf else NegInf)
     | (Fin p, NegInf) \<Rightarrow> (if p = 0 then NaN else if 0 < p then NegInf else PosInf)
     | (PosInf, Fin q) \<Rightarrow> (if q = 0 then NaN else if 0 < q then PosInf else NegInf)
     | (NegInf, Fin q) \<Rightarrow> (if q = 0 then NaN else if 0 < q then NegInf else PosInf)
     | (PosInf, PosInf) \<Rightarrow> PosInf
     | (NegInf, NegInf) \<Rightarrow> PosInf
     | (PosInf, NegInf) \<Rightarrow> NegInf
     | (NegInf, PosInf) \<Rightarrow> NegInf)"

text \<open>Division; a zero divisor is the positive zero, the only one the code produces.\<close>

definition fdiv :: "jsnum \<Rightarrow> jsnum \<Rightarrow> jsnum" where
  "fdiv x y = (case (x, y) of
       (NaN, _) \<Rightarrow> NaN
     | (_, NaN) \<Rightarrow> NaN
     | (Fin p, Fin q) \<Rightarrow>
         (if q = 0 then (if p = 0 then NaN else if 0 < p then PosInf else NegInf)
          else Number_value (p / q))
     | (Fin p, PosInf) \<Rightarrow> Fin 0
     | (Fin p, NegInf) \<Rightarrow> Fin 0
     | (PosInf, Fin q) \<Rightarrow> (if 0 \<le> q then PosInf else NegInf)
     | (NegInf, Fin q) \<Rightarrow> (if 0 \<le> q then NegInf else PosInf)
     | (_, _) \<Rightarrow> NaN)"

definition fadd :: "jsnum \<Rightarrow> jsnum \<Rightarrow> jsnum" where
  "fadd x y = (case (x, y) of
       (NaN, _) \<Rightarrow> NaN
     | (_, NaN) \<Rightarrow> NaN
     | (Fin p, Fin q) \<Rightarrow> Number_value (p + q)
     | (PosInf, NegInf) \<Rightarrow> NaN
     | (NegInf, PosInf) \<Rightarrow> NaN
     | (PosInf, _) \<Rightarrow> PosInf
     | (NegInf, _) \<Rightarrow> NegInf
     | (_, PosInf) \<Rightarrow> PosInf
     | (_, NegInf) \<Rightarrow> NegInf)"

definition Math_abs :: "jsnum \<Rightarrow> jsnum" where
  "Math_abs x = (case x of NaN \<Rightarrow> NaN | PosInf \<Rightarrow> PosInf | NegInf \<Rightarrow> PosInf
     | Fin q \<Rightarrow> Fin \<bar>q\<bar>)"

definition Math_floor :: "jsnum \<Rightarrow> jsnum" where
  "Math_floor x = (case x of Fin q \<Rightarrow> Fin (of_int \<lfloor>q\<rfloor>) | _ \<Rightarrow> x)"

text \<open>
  \<^verbatim>\<open>Math.pow(10, k)\<close> for an integer \<open>k\<close>, the only exponents the code passes. The
  result is exact for \<open>0 \<le> k \<le> 22\<close>; elsewhere it is taken correctly rounded.
\<close>

definition Math_pow10 :: "int \<Rightarrow> jsnum" where
  "Math_pow10 k = Number_value (pow_int 10 k)"

definition isFinite :: "jsnum \<Rightarrow> bool" where
  "isFinite x = (case x of Fin _ \<Rightarrow> True | _ \<Rightarrow> False)"

definition isNaN :: "jsnum \<Rightarrow> bool" where
  "isNaN x = (x = NaN)"

text \<open>Strict equality \<^verbatim>\<open>===\<close> of two numbers: \<^verbatim>\<open>NaN\<close> equals nothing.\<close>

definition strict_eq :: "jsnum \<Rightarrow> jsnum \<Rightarrow> bool" where
  "strict_eq x y = (x \<noteq> NaN \<and> y \<noteq> NaN \<and> x = y)"

subsection \<open>Number to string\<close>

text \<open>
  \<^verbatim>\<open>Number::toString\<close> prints the shortest decimal \<open>s * 10 ^ e\<close> whose Number value
  is the number printed. For \<open>k = 1, 2, \<dots>\<close> digits the two \<open>k\<close>-digit decimals around
  \<open>q\<close> are tried; when both qualify the closer one is taken, the even one on a tie.
  Seventeen digits always suffice for a Number; the branch for more digits, which the
  search then never reaches, prints the full expansion (a binary64 value has at most 1074
  fractional digits).
\<close>

definition full_digits :: int where
  "full_digits = 1074"

function shortest_from :: "int \<Rightarrow> rat \<Rightarrow> int \<times> int" where
  "shortest_from k q =
     (if 17 < k then (\<lfloor>q * pow_int 10 full_digits\<rfloor>, - full_digits)
      else
        (let e = decade q + 1 - k;
             sc = pow_int 10 e;
             lo = \<lfloor>q / sc\<rfloor>;
             hi = lo + 1;
             lo_ok = (Number_value (of_int lo * sc) = Fin q);
             hi_ok = (Number_value (of_int hi * sc) = Fin q)
         in if lo_ok \<and> hi_ok then
              (if q - of_int lo * sc < of_int hi * sc - q then (lo, e)
               else if of_int hi * sc - q < q - of_int lo * sc then (hi, e)
               else if even lo then (lo, e) else (hi, e))
            else if lo_ok then (lo, e)
            else if hi_ok then (hi, e)
            else shortest_from (k + 1) q))"
  by pat_completeness auto
termination
  by (relation "measure (\<lambda>(k, q). nat (18 - k))") auto

declare shortest_from.simps [simp del]

function strip_zeros :: "int \<times> int \<Rightarrow> int \<times> int" where
  "strip_zeros (s, e) = (if s \<noteq> 0 \<and> s mod 10 = 0 then strip_zeros (s div 10, e + 1) else (s, e))"
  by pat_completeness auto
termination
  by (relation "measure (\<lambda>(s, e). nat \<bar>s\<bar>)") auto

declare strip_zeros.simps [simp del]

definition shortest :: "rat \<Rightarrow> int \<times> int" where
  "shortest q = strip_zeros (shortest_from 1 q)"

definition digit_char :: "nat \<Rightarrow> char" where
  "digit_char d = ''0123456789'' ! d"

fun digits_of :: "nat \<Rightarrow> string" where
  "digits_of n = (if n < 10 then [digit_char n] else digits_of (n div 10) @ [digit_char (n mod 10)])"

declare digits_of.simps [simp del]

definition format_pos :: "int \<times> int \<Rightarrow> string" where
  "format_pos se = (let ds = digits_of (nat (fst se));
        k = int (length ds);
        n = k + snd se
     in if k \<le> n \<and> n \<le> 21 then ds @ replicate (nat (n - k)) (CHR ''0'')
        else if 0 < n \<and> n \<le> 21 then take (nat n) ds @ ''.'' @ drop (nat n) ds
        else if - 6 < n \<and> n \<le> 0 then ''0.'' @ replicate (nat (- n)) (CHR ''0'') @ ds
        else (if k = 1 then ds else hd ds # ''.'' @ tl ds) @ ''e''
             @ (if 0 \<le> n - 1 then ''+'' else ''-'') @ digits_of (nat \<bar>n - 1\<bar>))"

definition ToString :: "jsnum \<Rightarrow> string" where
  "ToString x = (case x of
       NaN \<Rightarrow> ''NaN''
     | PosInf \<Rightarrow> ''Infinity''
     | NegInf \<Rightarrow> ''-Infinity''
     | Fin q \<Rightarrow> (if q = 0 then ''0''
                 else if q < 0 then ''-'' @ format_pos (shortest (- q))
                 else format_pos (shortest q)))"

subsection \<open>String to number\<close>

definition is_digit :: "char \<Rightarrow> bool" where
  "is_digit c = (c \<in> set ''0123456789'')"

definition is_space :: "char \<Rightarrow> bool" where
  "is_space c = (c \<in> set [CHR '' '', CHR 0x09, CHR 0x0A, CHR 0x0B, CHR 0x0C, CHR 0x0D])"

definition digit_val :: "char \<Rightarrow> nat" where
  "digit_val c = of_char c - 48"

definition digits_val :: "string \<Rightarrow> nat" where
  "digits_val ds = foldl (\<lambda>a c. 10 * a + digit_val c) 0 ds"

text \<open>An optional sign: whether it is a minus, and the rest of the string.\<close>

definition split_sign :: "string \<Rightarrow> bool \<times> string" where
  "split_sign s = (case s of
       [] \<Rightarrow> (False, [])
     | c # cs \<Rightarrow> (if c = CHR ''-'' then (True, cs) else if c = CHR ''+'' then (False, cs)
                  else (False, s)))"

text \<open>\<^verbatim>\<open>parseInt(s, 10)\<close>: the longest run of digits after blanks and a sign.\<close>

definition parseInt :: "string \<Rightarrow> jsnum" where
  "parseInt s = (let (neg, r) = split_sign (dropWhile is_space s);
        ds = takeWhile is_digit r
     in if ds = [] then NaN
        else Number_value ((if neg then - 1 else 1) * of_nat (digits_val ds)))"

text \<open>The exponent part of a decimal literal; it counts only when digits follow.\<close>

definition exponent_part :: "string \<Rightarrow> int" where
  "exponent_part s = (case s of
       [] \<Rightarrow> 0
     | c # cs \<Rightarrow> (if c = CHR ''e'' \<or> c = CHR ''E'' then
                    (let (neg, r) = split_sign cs; ds = takeWhile is_digit r
                     in if ds = [] then 0
                        else (if neg then - 1 else 1) * int (digits_val ds))
                  else 0))"

text \<open>\<^verbatim>\<open>parseFloat(s)\<close>: the longest prefix that is a decimal literal.\<close>

definition parseFloat :: "string \<Rightarrow> jsnum" where
  "parseFloat s = (let (neg, r) = split_sign (dropWhile is_space s)
     in if take 8 r = ''Infinity'' then (if neg then NegInf else PosInf)
        else (let ip = takeWhile is_digit r;
                  r1 = dropWhile is_digit r;
                  fp = (case r1 of [] \<Rightarrow> [] | c # cs \<Rightarrow>
                          if c = CHR ''.'' then takeWhile is_digit cs else []);
                  r2 = (case r1 of [] \<Rightarrow> [] | c # cs \<Rightarrow>
                          if c = CHR ''.'' then dropWhile is_digit cs else r1)
              in if ip = [] \<and> fp = [] then NaN
                 else Number_value ((if neg then - 1 else 1) * of_nat (digits_val (ip @ fp))
                        * pow_int 10 (exponent_part r2 - int (length fp)))))"

section \<open>Values, errors and the collaborators of \<^verbatim>\<open>money.js\<close>\<close>

text \<open>
  Modelled from the spec: the \<^verbatim>\<open>Currency\<close> class is not among the sources. The spec
  describes it as an opaque, comparable, string-coded identity: constructible from a code
  string, equal by value (same code), with the code as its stable string representation.
\<close>

record Currency =
  code :: string

definition Currency_equals :: "Currency \<Rightarrow> Currency \<Rightarrow> bool" where
  "Currency_equals a b = (code a = code b)"

definition Currency_toString :: "Currency \<Rightarrow> string" where
  "Currency_toString c = code c"

text \<open>
  The values a caller can pass where the code expects a number, a string or a currency.
  \<open>PlainObject\<close> is an object with none of the properties the code reads, like
  \<^verbatim>\<open>{}\<close>.
\<close>

datatype jsval = Undefined | Null | Num jsnum | Str string | CurrencyObj Currency | PlainObject

text \<open>
  The errors the code can raise: \<^verbatim>\<open>new Error(message)\<close> thrown by \<^verbatim>\<open>money.js\<close> itself,
  the \<^verbatim>\<open>Match.Error\<close> of a failed \<^verbatim>\<open>check(value, pattern)\<close>, the host's
  \<^verbatim>\<open>TypeError\<close> for a property read or method call on \<^verbatim>\<open>undefined\<close> or
  \<^verbatim>\<open>null\<close>, and the two error kinds the spec gives the collaborators.
\<close>

datatype pattern = Number_pattern | Currency_pattern

datatype js_error =
    Error string
  | Match_Error pattern
  | TypeError
  | Invalid_Currency
  | Invalid_Amount

text \<open>\<^verbatim>\<open>check(v, Number)\<close> matches by \<^verbatim>\<open>typeof v === 'number'\<close>: every number passes,
  \<^verbatim>\<open>NaN\<close> and the infinities included.\<close>

definition check_Number :: "jsval \<Rightarrow> js_error + jsnum" where
  "check_Number v = (case v of Num x \<Rightarrow> Inr x | _ \<Rightarrow> Inl (Match_Error Number_pattern))"

text \<open>\<^verbatim>\<open>check(v, Currency)\<close> matches instances of the class.\<close>

definition check_Currency :: "jsval \<Rightarrow> js_error + Currency" where
  "check_Currency v = (case v of CurrencyObj c \<Rightarrow> Inr c | _ \<Rightarrow> Inl (Match_Error Currency_pattern))"

text \<open>
  Modelled from the spec: \<^verbatim>\<open>new Currency(v)\<close> resolves a code string, or copies a
  currency; anything else is the spec's currency-construction error.
\<close>

definition new_Currency :: "jsval \<Rightarrow> js_error + Currency" where
  "new_Currency v = (case v of
       Str s \<Rightarrow> Inr \<lparr>code = s\<rparr>
     | CurrencyObj c \<Rightarrow> Inr c
     | _ \<Rightarrow> Inl Invalid_Currency)"

definition truthy :: "jsval \<Rightarrow> bool" where
  "truthy v = (case v of
       Undefined \<Rightarrow> False
     | Null \<Rightarrow> False
     | Num x \<Rightarrow> x \<noteq> NaN \<and> x \<noteq> Fin 0
     | Str s \<Rightarrow> s \<noteq> []
     | CurrencyObj _ \<Rightarrow> True
     | PlainObject \<Rightarrow> True)"

text \<open>\<^verbatim>\<open>typeof v === 'object'\<close>, which holds of \<^verbatim>\<open>null\<close> too.\<close>

definition typeof_object :: "jsval \<Rightarrow> bool" where
  "typeof_object v = (case v of
       Null \<Rightarrow> True | CurrencyObj _ \<Rightarrow> True | PlainObject \<Rightarrow> True | _ \<Rightarrow> False)"

text \<open>The string a value is converted to where a string is expected.\<close>

definition to_string :: "jsval \<Rightarrow> string" where
  "to_string v = (case v of
       Undefined \<Rightarrow> ''undefined''
     | Null \<Rightarrow> ''null''
     | Num x \<Rightarrow> ToString x
     | Str s \<Rightarrow> s
     | CurrencyObj c \<Rightarrow> Currency_toString c
     | PlainObject \<Rightarrow> ''[object Object]'')"

text \<open>The method call \<^verbatim>\<open>v.toString()\<close>, which \<^verbatim>\<open>undefined\<close> and \<^verbatim>\<open>null\<close> do not have.\<close>

definition call_toString :: "jsval \<Rightarrow> js_error + string" where
  "call_toString v = (case v of
       Undefined \<Rightarrow> Inl TypeError
     | Null \<Rightarrow> Inl TypeError
     | _ \<Rightarrow> Inr (to_string v))"

section \<open>Money\<close>

record Money =
  amount :: jsnum
  base :: string
  decimals :: int
  currency :: Currency

definition DEFAULT_CURRENCY :: string where
  "DEFAULT_CURRENCY = ''EUR''"

subsection \<open>The error messages\<close>

definition sameCurrencyConversion :: "Currency \<Rightarrow> string" where
  "sameCurrencyConversion c =
     ''Converting to same currency '' @ [CHR 0x27] @ Currency_toString c @ [CHR 0x27]
       @ '' is not allowed''"

text \<open>The template literal spans two lines: a line feed and four blanks follow \<open>required\<close>.\<close>

definition currencyMissmatch :: "Currency \<Rightarrow> jsval \<Rightarrow> js_error + string" where
  "currencyMissmatch requiredCurrency passedCurrency =
     (case call_toString passedCurrency of
        Inl e \<Rightarrow> Inl e
      | Inr p \<Rightarrow> Inr (''Currency passed '' @ [CHR 0x27] @ p @ [CHR 0x27]
                  @ '' does not match required'' @ [CHR 0x0A] @ ''    '' @ [CHR 0x27]
                  @ Currency_toString requiredCurrency @ [CHR 0x27]))"

subsection \<open>Decimal places\<close>

definition isInteger :: "jsnum \<Rightarrow> bool" where
  "isInteger n = (strict_eq (parseFloat (ToString n)) (parseInt (ToString n)) \<and> \<not> isNaN n)"

text \<open>
  The loop of \<^verbatim>\<open>_decimalPlaces\<close>: \<^verbatim>\<open>while (!isInteger(c) && isFinite(c)) c = a * 10^count++\<close>,
  returning the final \<open>count\<close>.
\<close>

function decimalPlaces_loop :: "jsnum \<Rightarrow> jsnum \<Rightarrow> int \<Rightarrow> int" where
  "decimalPlaces_loop a c count =
     (if \<not> isInteger c \<and> isFinite c
      then decimalPlaces_loop a (fmul a (Math_pow10 count)) (count + 1)
      else count)"
  by pat_completeness auto

lemma Math_pow10_overflow: "309 \<le> k \<Longrightarrow> Math_pow10 k = PosInf"
proof -
  assume k: "309 \<le> k"
  have "(2::rat) ^ 1024 \<le> 10 ^ 309" by simp
  also have "\<dots> \<le> 10 ^ nat k" using k by (intro power_increasing) auto
  finally have big: "(2::rat) ^ 1024 \<le> 10 ^ nat k" .
  have pos: "(0::rat) < 10 ^ nat k" by simp
  have "(2::rat) ^ 1024 - 2 ^ 970 \<le> 10 ^ nat k" using big by simp
  then show ?thesis using k pos
    by (simp add: Math_pow10_def Number_value_def pow_int_def abs_of_pos)
qed

lemma fmul_PosInf_not_finite: "\<not> isFinite (fmul a PosInf)"
  by (cases a) (auto simp: fmul_def isFinite_def)

termination decimalPlaces_loop
proof (relation "measure (\<lambda>(a, c, count).
          if 309 \<le> count then (if \<not> isInteger c \<and> isFinite c then 1 else 0)
          else nat (311 - count))", goal_cases)
  case 1
  show ?case by simp
next
  case (2 a c count)
  show ?case
  proof (cases "309 \<le> count")
    case True
    then have "Math_pow10 count = PosInf" by (rule Math_pow10_overflow)
    then have "\<not> isFinite (fmul a (Math_pow10 count))"
      by (simp add: fmul_PosInf_not_finite)
    with True 2 show ?thesis by simp
  next
    case False
    then show ?thesis by (auto split: if_splits)
  qed
qed

declare decimalPlaces_loop.simps [simp del]

definition decimalPlaces :: "jsnum \<Rightarrow> int" where
  "decimalPlaces n = (let a = Math_abs n in min (decimalPlaces_loop a a 1 - 1) 20)"

subsection \<open>Construction\<close>

text \<open>
  The constructor is called with positional arguments \<^verbatim>\<open>(amount, currency)\<close> or with a
  single record. A record has the four fields that \<^verbatim>\<open>fields()\<close> declares; a missing
  field reads as \<^verbatim>\<open>undefined\<close>, and \<open>decimals\<close>, declared \<^verbatim>\<open>Match.Integer\<close>, is an
  integer when present.
\<close>

record money_data =
  d_amount :: jsval
  d_base :: jsval
  d_decimals :: "int option"
  d_currency :: jsval

datatype ctor_args = Positional "jsval list" | Record money_data

text \<open>Lines 13 to 28: the amount and the currency value that \<open>data\<close> holds afterwards.\<close>

definition data_amount :: "ctor_args \<Rightarrow> js_error + jsnum \<times> jsval" where
  "data_amount args = (case args of
       Record d \<Rightarrow>
         (case d_decimals d of
            Some k \<Rightarrow>
              if d_base d \<noteq> Undefined
              then Inr (fdiv (parseInt (to_string (d_base d))) (Math_pow10 k), d_currency d)
              else map_sum id (\<lambda>a. (a, d_currency d)) (check_Number (d_amount d))
          | None \<Rightarrow> map_sum id (\<lambda>a. (a, d_currency d)) (check_Number (d_amount d)))
     | Positional [] \<Rightarrow> map_sum id (\<lambda>a. (a, Str DEFAULT_CURRENCY)) (check_Number Undefined)
     | Positional [v] \<Rightarrow>
         (if typeof_object v then
            (case v of Null \<Rightarrow> Inl TypeError
             | _ \<Rightarrow> map_sum id (\<lambda>a. (a, Undefined)) (check_Number Undefined))
          else map_sum id (\<lambda>a. (a, Str DEFAULT_CURRENCY)) (check_Number v))
     | Positional (v # c # _) \<Rightarrow>
         map_sum id (\<lambda>a. (a, if c = Undefined then Str DEFAULT_CURRENCY else c)) (check_Number v))"

text \<open>Lines 30 to 32: currency strings like \<^verbatim>\<open>'EUR'\<close> are allowed.\<close>

definition data_currency :: "jsval \<Rightarrow> js_error + Currency" where
  "data_currency v = (case v of
       CurrencyObj c \<Rightarrow> Inr c
     | _ \<Rightarrow> new_Currency (if truthy v then v else Str DEFAULT_CURRENCY))"

text \<open>
  Lines 33 to 37. The superclass then checks the four fields against \<^verbatim>\<open>fields()\<close>; they
  are a number, a string, an integer and a currency by construction.
\<close>

definition make_Money :: "jsnum \<Rightarrow> Currency \<Rightarrow> Money" where
  "make_Money a c = (let d = decimalPlaces a in
     \<lparr>amount = a,
      base = ToString (Math_floor (fmul a (Math_pow10 d))),
      decimals = d,
      currency = c\<rparr>)"

definition Constructor :: "ctor_args \<Rightarrow> js_error + Money" where
  "Constructor args = (case data_amount args of
       Inl e \<Rightarrow> Inl e
     | Inr (a, cv) \<Rightarrow>
         (case data_currency cv of
            Inl e \<Rightarrow> Inl e
          | Inr c \<Rightarrow> Inr (make_Money a c)))"

definition valueOf :: "Money \<Rightarrow> jsnum" where
  "valueOf this = amount this"

subsection \<open>Exact-decimal arithmetic\<close>

text \<open>
  Modelled from the spec: the exact-decimal arithmetic collaborator \<^verbatim>\<open>BigNumber\<close> is not
  among the sources. The spec gives it addition, subtraction, multiplication, division,
  percentage-of (\<open>amount * p / 100\<close>), comparison and conversion to a plain number, all
  computed on decimal values without binary floating-point error, and has a non-numeric
  argument rejected. A number enters with the decimal value it prints as, so that
  \<^verbatim>\<open>0.1\<close> is one tenth. The spec leaves open what becomes of \<^verbatim>\<open>NaN\<close>, of an infinity and
  of a zero divisor: the model answers with \<open>Big_NaN\<close>, which compares false.
\<close>

definition decimal_value :: "int \<times> int \<Rightarrow> rat" where
  "decimal_value se = of_int (fst se) * pow_int 10 (snd se)"

definition decimal_of :: "rat \<Rightarrow> rat" where
  "decimal_of q = (if q = 0 then 0
     else if q < 0 then - decimal_value (shortest (- q))
     else decimal_value (shortest q))"

datatype BigNumber = Big rat | Big_NaN

definition new_BigNumber :: "jsval \<Rightarrow> js_error + BigNumber" where
  "new_BigNumber v = (case v of
       Num (Fin q) \<Rightarrow> Inr (Big (decimal_of q))
     | Num _ \<Rightarrow> Inr Big_NaN
     | _ \<Rightarrow> Inl Invalid_Amount)"

definition toNumber :: "BigNumber \<Rightarrow> jsnum" where
  "toNumber x = (case x of Big q \<Rightarrow> Number_value q | Big_NaN \<Rightarrow> NaN)"

definition bn_arith :: "(rat \<Rightarrow> rat \<Rightarrow> rat) \<Rightarrow> jsnum \<Rightarrow> jsval \<Rightarrow> js_error + BigNumber" where
  "bn_arith f x v = (case new_BigNumber (Num x) of
       Inl e \<Rightarrow> Inl e
     | Inr a \<Rightarrow> (case new_BigNumber v of
         Inl e \<Rightarrow> Inl e
       | Inr b \<Rightarrow> (case (a, b) of
           (Big p, Big q) \<Rightarrow> Inr (Big (f p q))
         | _ \<Rightarrow> Inr Big_NaN)))"

definition bn_add :: "jsnum \<Rightarrow> jsval \<Rightarrow> js_error + BigNumber" where
  "bn_add = bn_arith (\<lambda>p q. p + q)"

definition bn_subtract :: "jsnum \<Rightarrow> jsval \<Rightarrow> js_error + BigNumber" where
  "bn_subtract = bn_arith (\<lambda>p q. p - q)"

definition bn_multiply :: "jsnum \<Rightarrow> jsval \<Rightarrow> js_error + BigNumber" where
  "bn_multiply = bn_arith (\<lambda>p q. p * q)"

definition bn_divide :: "jsnum \<Rightarrow> jsval \<Rightarrow> js_error + BigNumber" where
  "bn_divide x v = (case new_BigNumber v of
       Inr (Big q) \<Rightarrow> (if q = 0 then Inr Big_NaN else bn_arith (\<lambda>p q. p / q) x v)
     | _ \<Rightarrow> bn_arith (\<lambda>p q. p / q) x v)"

definition bn_percentage :: "jsnum \<Rightarrow> jsval \<Rightarrow> js_error + BigNumber" where
  "bn_percentage = bn_arith (\<lambda>p q. p * q / 100)"

definition bn_compare :: "(rat \<Rightarrow> rat \<Rightarrow> bool) \<Rightarrow> jsnum \<Rightarrow> jsval \<Rightarrow> js_error + bool" where
  "bn_compare r x v = (case new_BigNumber (Num x) of
       Inl e \<Rightarrow> Inl e
     | Inr a \<Rightarrow> (case new_BigNumber v of
         Inl e \<Rightarrow> Inl e
       | Inr b \<Rightarrow> (case (a, b) of
           (Big p, Big q) \<Rightarrow> Inr (r p q)
         | _ \<Rightarrow> Inr False)))"

subsection \<open>The compatibility guard\<close>

text \<open>The argument of a binary operation: a Money instance, or some other value.\<close>

datatype operand = Val jsval | Inst Money

text \<open>
  The property reads \<^verbatim>\<open>other.currency\<close> and \<^verbatim>\<open>other.amount\<close>. Reading a property of
  \<^verbatim>\<open>undefined\<close> or \<^verbatim>\<open>null\<close> is a \<^verbatim>\<open>TypeError\<close>; numbers, strings, currencies
  and plain objects have neither property.
\<close>

definition operand_currency :: "operand \<Rightarrow> js_error + jsval" where
  "operand_currency other = (case other of
       Inst m \<Rightarrow> Inr (CurrencyObj (currency m))
     | Val Undefined \<Rightarrow> Inl TypeError
     | Val Null \<Rightarrow> Inl TypeError
     | Val _ \<Rightarrow> Inr Undefined)"

definition operand_amount :: "operand \<Rightarrow> jsval" where
  "operand_amount other = (case other of Inst m \<Rightarrow> Num (amount m) | Val _ \<Rightarrow> Undefined)"

definition isIn :: "Money \<Rightarrow> jsval \<Rightarrow> js_error + bool" where
  "isIn this v = (case check_Currency v of
       Inl e \<Rightarrow> Inl e
     | Inr c \<Rightarrow> Inr (Currency_equals (currency this) c))"

definition throw_currencyMissmatch :: "Money \<Rightarrow> jsval \<Rightarrow> js_error + bool" where
  "throw_currencyMissmatch this passed = (case currencyMissmatch (currency this) passed of
       Inl e \<Rightarrow> Inl e
     | Inr msg \<Rightarrow> Inl (Error msg))"

definition validateCompatibility :: "Money \<Rightarrow> operand \<Rightarrow> js_error + bool" where
  "validateCompatibility this other = (case operand_currency other of
       Inl e \<Rightarrow> Inl e
     | Inr oc \<Rightarrow>
         if \<not> truthy oc then throw_currencyMissmatch this oc
         else (case isIn this oc of
                 Inl e \<Rightarrow> Inl e
               | Inr same \<Rightarrow> if \<not> same then throw_currencyMissmatch this oc else Inr True))"

subsection \<open>Comparisons\<close>

definition compare_with :: "(rat \<Rightarrow> rat \<Rightarrow> bool) \<Rightarrow> Money \<Rightarrow> operand \<Rightarrow> js_error + bool" where
  "compare_with r this other = (case validateCompatibility this other of
       Inl e \<Rightarrow> Inl e
     | Inr _ \<Rightarrow> bn_compare r (amount this) (operand_amount other))"

definition isEqual :: "Money \<Rightarrow> operand \<Rightarrow> js_error + bool" where
  "isEqual = compare_with (\<lambda>p q. p = q)"

definition isGreaterThan :: "Money \<Rightarrow> operand \<Rightarrow> js_error + bool" where
  "isGreaterThan = compare_with (\<lambda>p q. q < p)"

definition isGreaterThanOrEqualTo :: "Money \<Rightarrow> operand \<Rightarrow> js_error + bool" where
  "isGreaterThanOrEqualTo = compare_with (\<lambda>p q. q \<le> p)"

definition isLessThan :: "Money \<Rightarrow> operand \<Rightarrow> js_error + bool" where
  "isLessThan = compare_with (\<lambda>p q. p < q)"

definition isLessThanOrEqualTo :: "Money \<Rightarrow> operand \<Rightarrow> js_error + bool" where
  "isLessThanOrEqualTo = compare_with (\<lambda>p q. p \<le> q)"

subsection \<open>Arithmetic\<close>

text \<open>\<^verbatim>\<open>new Money({amount: result, currency: c})\<close>, as every operation ends.\<close>

definition new_Money :: "jsnum \<Rightarrow> Currency \<Rightarrow> js_error + Money" where
  "new_Money result c = Constructor (Record
     \<lparr>d_amount = Num result, d_base = Undefined, d_decimals = None, d_currency = CurrencyObj c\<rparr>)"

definition arith_with ::
  "(jsnum \<Rightarrow> jsval \<Rightarrow> js_error + BigNumber) \<Rightarrow> Money \<Rightarrow> operand \<Rightarrow> js_error + Money" where
  "arith_with f this other = (case validateCompatibility this other of
       Inl e \<Rightarrow> Inl e
     | Inr _ \<Rightarrow> (case f (amount this) (operand_amount other) of
         Inl e \<Rightarrow> Inl e
       | Inr r \<Rightarrow> new_Money (toNumber r) (currency this)))"

definition add :: "Money \<Rightarrow> operand \<Rightarrow> js_error + Money" where
  "add = arith_with bn_add"

definition subtract :: "Money \<Rightarrow> operand \<Rightarrow> js_error + Money" where
  "subtract = arith_with bn_subtract"

definition multiply :: "Money \<Rightarrow> operand \<Rightarrow> js_error + Money" where
  "multiply = arith_with bn_multiply"

definition divide :: "Money \<Rightarrow> operand \<Rightarrow> js_error + Money" where
  "divide = arith_with bn_divide"

definition percentage :: "Money \<Rightarrow> jsval \<Rightarrow> js_error + Money" where
  "percentage this p = (case bn_percentage (amount this) p of
       Inl e \<Rightarrow> Inl e
     | Inr r \<Rightarrow> new_Money (toNumber r) (currency this))"

definition delta :: "Money \<Rightarrow> operand \<Rightarrow> js_error + jsnum" where
  "delta this other = (case validateCompatibility this other of
       Inl e \<Rightarrow> Inl e
     | Inr _ \<Rightarrow> map_sum id toNumber (bn_subtract (amount this) (operand_amount other)))"

definition convert :: "Money \<Rightarrow> jsval \<Rightarrow> jsval \<Rightarrow> js_error + Money" where
  "convert this rate cur = (case check_Number rate of
       Inl e \<Rightarrow> Inl e
     | Inr _ \<Rightarrow> (case check_Currency cur of
         Inl e \<Rightarrow> Inl e
       | Inr _ \<Rightarrow> (case isIn this cur of
           Inl e \<Rightarrow> Inl e
         | Inr same \<Rightarrow>
             if same then Inl (Error (sameCurrencyConversion (currency this)))
             else (case bn_multiply (amount this) rate of
                 Inl e \<Rightarrow> Inl e
               | Inr r \<Rightarrow> (case new_Currency cur of
                   Inl e \<Rightarrow> Inl e
                 | Inr c \<Rightarrow> new_Money (toNumber r) c)))))"

subsection \<open>Native arithmetic on a Money\<close>

text \<open>
  In \<^verbatim>\<open>x + y\<close> the host converts an object operand to a primitive by calling its
  \<^verbatim>\<open>valueOf\<close>; two numbers are then added.
\<close>

datatype addend = Money_addend Money | Number_addend jsnum

definition ToPrimitive :: "addend \<Rightarrow> jsnum" where
  "ToPrimitive x = (case x of Money_addend m \<Rightarrow> valueOf m | Number_addend n \<Rightarrow> n)"

definition js_plus :: "addend \<Rightarrow> addend \<Rightarrow> jsnum" where
  "js_plus x y = fadd (ToPrimitive x) (ToPrimitive y)"

section \<open>General facts about rounding and printing\<close>

lemma pow_int_powi: "pow_int b e = b powi e"
  by (simp add: pow_int_def power_int_def inverse_eq_divide power_one_over)

lemma pow_int_pos [simp]: "0 < b \<Longrightarrow> 0 < pow_int b e"
  by (simp add: pow_int_powi)

lemma pow_int_Suc: "b \<noteq> 0 \<Longrightarrow> pow_int b (e + 1) = pow_int b e * b"
  by (simp add: pow_int_powi power_int_add_1)

lemma pow_int_pred: "b \<noteq> 0 \<Longrightarrow> pow_int b (e - 1) = pow_int b e / b"
  using pow_int_Suc [of b "e - 1"] by (simp add: field_simps)

lemma pow_int_mono: "1 \<le> b \<Longrightarrow> e \<le> e' \<Longrightarrow> pow_int b e \<le> pow_int b e'"
  by (simp add: pow_int_powi power_int_increasing)

lemma pow_int_add: "b \<noteq> 0 \<Longrightarrow> pow_int b (e + e') = pow_int b e * pow_int b e'"
  by (simp add: pow_int_powi power_int_add)

lemma binade_bounds:
  "0 < a \<Longrightarrow> pow_int 2 (binade a) \<le> a \<and> a < pow_int 2 (binade a + 1)"
proof (induction a rule: binade.induct)
  case (1 a)
  show ?case
  proof (cases "2 \<le> a")
    case True
    then have eq: "binade a = binade (a / 2) + 1" using 1 by (subst binade.simps) simp
    have "pow_int 2 (binade (a / 2)) \<le> a / 2 \<and> a / 2 < pow_int 2 (binade (a / 2) + 1)"
      using 1(1) [of] True 1(3) by simp
    moreover have "pow_int 2 (binade (a / 2) + 1) = pow_int 2 (binade (a / 2)) * 2"
      "pow_int 2 (binade (a / 2) + 1 + 1) = pow_int 2 (binade (a / 2) + 1) * 2"
      by (simp_all only: pow_int_Suc [of 2, simplified])
    ultimately show ?thesis unfolding eq by linarith
  next
    case False
    show ?thesis
    proof (cases "a < 1")
      case True
      then have eq: "binade a = binade (a * 2) - 1" using 1(3) False by (subst binade.simps) simp
      have "pow_int 2 (binade (a * 2)) \<le> a * 2 \<and> a * 2 < pow_int 2 (binade (a * 2) + 1)"
        using 1(2) False True 1(3) by simp
      moreover have "pow_int 2 (binade (a * 2) - 1) = pow_int 2 (binade (a * 2)) / 2"
        by (rule pow_int_pred) simp
      moreover have "pow_int 2 (binade (a * 2) - 1 + 1) = pow_int 2 (binade (a * 2))"
        "pow_int 2 (binade (a * 2) + 1) = pow_int 2 (binade (a * 2)) * 2"
        by (simp_all only: pow_int_Suc [of 2, simplified] diff_add_cancel)
      ultimately show ?thesis unfolding eq by (simp add: field_simps)
    next
      case ge: False
      then have "binade a = 0" using False 1(3) by (subst binade.simps) simp
      then show ?thesis using ge False by (simp add: pow_int_def)
    qed
  qed
qed

lemma binade_eqI:
  assumes "pow_int 2 e \<le> a" "a < pow_int 2 (e + 1)"
  shows "binade a = e"
proof -
  have "0 < pow_int 2 e" by simp
  then have a: "0 < a" using assms(1) by linarith
  note b = binade_bounds [OF a]
  have "\<not> binade a < e"
  proof
    assume "binade a < e"
    then have "pow_int 2 (binade a + 1) \<le> pow_int 2 e" by (intro pow_int_mono) auto
    then show False using b assms by simp
  qed
  moreover have "\<not> e < binade a"
  proof
    assume "e < binade a"
    then have "pow_int 2 (e + 1) \<le> pow_int 2 (binade a)" by (intro pow_int_mono) auto
    then show False using b assms by simp
  qed
  ultimately show ?thesis by simp
qed

lemma decade_bounds:
  "0 < a \<Longrightarrow> pow_int 10 (decade a) \<le> a \<and> a < pow_int 10 (decade a + 1)"
proof (induction a rule: decade.induct)
  case (1 a)
  show ?case
  proof (cases "10 \<le> a")
    case True
    then have eq: "decade a = decade (a / 10) + 1" using 1 by (subst decade.simps) simp
    have "pow_int 10 (decade (a / 10)) \<le> a / 10 \<and> a / 10 < pow_int 10 (decade (a / 10) + 1)"
      using 1(1) [of] True 1(3) by simp
    moreover have "pow_int 10 (decade (a / 10) + 1) = pow_int 10 (decade (a / 10)) * 10"
      "pow_int 10 (decade (a / 10) + 1 + 1) = pow_int 10 (decade (a / 10) + 1) * 10"
      by (simp_all only: pow_int_Suc [of 10, simplified])
    ultimately show ?thesis unfolding eq by linarith
  next
    case False
    show ?thesis
    proof (cases "a < 1")
      case True
      then have eq: "decade a = decade (a * 10) - 1" using 1(3) False by (subst decade.simps) simp
      have "pow_int 10 (decade (a * 10)) \<le> a * 10 \<and> a * 10 < pow_int 10 (decade (a * 10) + 1)"
        using 1(2) False True 1(3) by simp
      moreover have "pow_int 10 (decade (a * 10) - 1) = pow_int 10 (decade (a * 10)) / 10"
        by (rule pow_int_pred) simp
      moreover have "pow_int 10 (decade (a * 10) - 1 + 1) = pow_int 10 (decade (a * 10))"
        "pow_int 10 (decade (a * 10) + 1) = pow_int 10 (decade (a * 10)) * 10"
        by (simp_all only: pow_int_Suc [of 10, simplified] diff_add_cancel)
      ultimately show ?thesis unfolding eq by (simp add: field_simps)
    next
      case ge: False
      then have "decade a = 0" using False 1(3) by (subst decade.simps) simp
      then show ?thesis using ge False by (simp add: pow_int_def)
    qed
  qed
qed

lemma decade_eqI:
  assumes "pow_int 10 e \<le> a" "a < pow_int 10 (e + 1)"
  shows "decade a = e"
proof -
  have "0 < pow_int 10 e" by simp
  then have a: "0 < a" using assms(1) by linarith
  note b = decade_bounds [OF a]
  have "\<not> decade a < e"
  proof
    assume "decade a < e"
    then have "pow_int 10 (decade a + 1) \<le> pow_int 10 e" by (intro pow_int_mono) auto
    then show False using b assms by simp
  qed
  moreover have "\<not> e < decade a"
  proof
    assume "e < decade a"
    then have "pow_int 10 (e + 1) \<le> pow_int 10 (decade a)" by (intro pow_int_mono) auto
    then show False using b assms by simp
  qed
  ultimately show ?thesis by simp
qed

lemma floor_rat_numeral [simp]:
  "\<lfloor>(numeral a :: rat) / numeral b\<rfloor> = numeral a div numeral b"
  by (metis floor_divide_of_int_eq of_int_numeral)

lemma Number_value_pos:
  assumes "pow_int 2 e \<le> q" "q < pow_int 2 (e + 1)" "q < 2 ^ 1024 - 2 ^ 970"
    and "u = pow_int 2 (max e (- 1022) - 52)"
    and "round_half_even (q / u) = m"
  shows "Number_value q = Fin (of_int m * u)"
proof -
  have "0 < pow_int 2 e" by simp
  then have q: "0 < q" using assms(1) by linarith
  have "binade q = e" using assms(1,2) by (rule binade_eqI)
  then have "round_pos q = of_int m * u"
    using assms(4,5) by (simp add: round_pos_def grid_def Let_def)
  then show ?thesis using q assms(3) by (simp add: Number_value_def)
qed

subsection \<open>Rounding is monotone\<close>

lemma pow_int_nonneg [simp]: "0 \<le> pow_int 2 e"
  by (rule less_imp_le) simp

lemma rhe_of_int [simp]: "round_half_even (of_int n) = n"
  by (simp add: round_half_even_def)

lemma rhe_bounds: "\<lfloor>x\<rfloor> \<le> round_half_even x \<and> round_half_even x \<le> \<lfloor>x\<rfloor> + 1"
  by (simp add: round_half_even_def Let_def)

lemma rhe_mono:
  assumes "x \<le> y"
  shows "round_half_even x \<le> round_half_even y"
proof (cases "\<lfloor>x\<rfloor> < \<lfloor>y\<rfloor>")
  case True
  then show ?thesis using rhe_bounds [of x] rhe_bounds [of y] by linarith
next
  case False
  then have eq: "\<lfloor>x\<rfloor> = \<lfloor>y\<rfloor>" using floor_mono [OF assms] by linarith
  have "x - of_int \<lfloor>y\<rfloor> \<le> y - of_int \<lfloor>y\<rfloor>" using assms by simp
  then show ?thesis unfolding round_half_even_def Let_def eq
    by (auto split: if_splits)
qed

lemma binade_mono:
  assumes "0 < x" "x \<le> y"
  shows "binade x \<le> binade y"
proof (rule ccontr)
  assume "\<not> binade x \<le> binade y"
  then have "binade y + 1 \<le> binade x" by simp
  then have "pow_int 2 (binade y + 1) \<le> pow_int 2 (binade x)" by (intro pow_int_mono) auto
  moreover have "pow_int 2 (binade x) \<le> x" using binade_bounds [OF assms(1)] by simp
  moreover have "y < pow_int 2 (binade y + 1)" using binade_bounds [of y] assms by simp
  ultimately show False using assms(2) by linarith
qed

lemma round_pos_grid: "round_pos a = of_int (round_half_even (a / pow_int 2 (grid a - 52))) * pow_int 2 (grid a - 52)"
  by (simp add: round_pos_def Let_def)

lemma pow_int_53: "pow_int 2 (e + 1) = 2 ^ 53 * pow_int 2 (e - 52)"
proof -
  have "pow_int 2 (e + 1) = pow_int 2 ((e - 52) + 53)" by (simp add: add.commute)
  also have "\<dots> = pow_int 2 (e - 52) * pow_int 2 53" by (rule pow_int_add) simp
  also have "pow_int 2 53 = 2 ^ 53" by (simp add: pow_int_def)
  finally show ?thesis by simp
qed

lemma pow_int_52: "pow_int 2 e = 2 ^ 52 * pow_int 2 (e - 52)"
proof -
  have "pow_int 2 e = pow_int 2 ((e - 52) + 52)" by simp
  also have "\<dots> = pow_int 2 (e - 52) * pow_int 2 52" by (rule pow_int_add) simp
  also have "pow_int 2 52 = 2 ^ 52" by (simp add: pow_int_def)
  finally show ?thesis by simp
qed

lemma round_pos_upper:
  assumes "0 < x"
  shows "round_pos x \<le> pow_int 2 (grid x + 1)"
proof -
  let ?u = "pow_int 2 (grid x - 52)"
  have u: "0 < ?u" by simp
  have "x < pow_int 2 (binade x + 1)" using binade_bounds [OF assms] by simp
  also have "\<dots> \<le> pow_int 2 (grid x + 1)" by (intro pow_int_mono) (auto simp: grid_def)
  finally have "x < 2 ^ 53 * ?u" by (simp only: pow_int_53)
  then have "x / ?u \<le> of_int (2 ^ 53)" using u by (simp add: field_simps)
  then have "round_half_even (x / ?u) \<le> 2 ^ 53" using rhe_mono rhe_of_int by metis
  then have "of_int (round_half_even (x / ?u)) * ?u \<le> of_int (2 ^ 53) * ?u"
    using u by (intro mult_right_mono) (auto simp del: of_int_power of_int_numeral)
  then show ?thesis by (simp add: round_pos_grid pow_int_53 [of "grid x"])
qed

lemma round_pos_lower:
  assumes "0 < y" "- 1022 \<le> binade y"
  shows "pow_int 2 (grid y) \<le> round_pos y"
proof -
  let ?u = "pow_int 2 (grid y - 52)"
  have u: "0 < ?u" by simp
  have g: "grid y = binade y" using assms(2) by (simp add: grid_def)
  have "pow_int 2 (grid y) \<le> y" using binade_bounds [OF assms(1)] g by simp
  then have "2 ^ 52 * ?u \<le> y" by (simp only: pow_int_52 [symmetric])
  then have "of_int (2 ^ 52) \<le> y / ?u" using u by (simp add: field_simps)
  then have "2 ^ 52 \<le> round_half_even (y / ?u)" using rhe_mono rhe_of_int by metis
  then have "of_int (2 ^ 52) * ?u \<le> of_int (round_half_even (y / ?u)) * ?u"
    using u by (intro mult_right_mono) (auto simp del: of_int_power of_int_numeral)
  then show ?thesis by (simp add: round_pos_grid pow_int_52 [of "grid y"])
qed

lemma round_pos_mono:
  assumes "0 < x" "x \<le> y"
  shows "round_pos x \<le> round_pos y"
proof -
  have y: "0 < y" using assms by simp
  have le: "grid x \<le> grid y" using binade_mono [OF assms] by (simp add: grid_def)
  show ?thesis
  proof (cases "grid x = grid y")
    case True
    let ?u = "pow_int 2 (grid y - 52)"
    have u: "0 < ?u" by simp
    have "x / ?u \<le> y / ?u" using assms(2) u by (simp add: divide_right_mono)
    then have "round_half_even (x / ?u) \<le> round_half_even (y / ?u)" by (rule rhe_mono)
    then have "of_int (round_half_even (x / ?u)) * ?u \<le> of_int (round_half_even (y / ?u)) * ?u"
      using u by (intro mult_right_mono) auto
    then show ?thesis by (simp add: round_pos_grid True)
  next
    case False
    then have lt: "grid x + 1 \<le> grid y" using le by simp
    then have gy: "- 1022 \<le> binade y" "grid y = binade y" by (auto simp: grid_def)
    have "round_pos x \<le> pow_int 2 (grid x + 1)" by (rule round_pos_upper [OF assms(1)])
    also have "\<dots> \<le> pow_int 2 (grid y)" using lt by (intro pow_int_mono) auto
    also have "\<dots> \<le> round_pos y" by (rule round_pos_lower [OF y gy(1)])
    finally show ?thesis .
  qed
qed

lemma round_pos_nonneg: "0 \<le> x \<Longrightarrow> 0 \<le> round_pos x"
proof -
  assume x: "0 \<le> x"
  let ?u = "pow_int 2 (grid x - 52)"
  have u: "0 < ?u" by simp
  have "of_int 0 \<le> x / ?u" using x u by simp
  then have "0 \<le> round_half_even (x / ?u)" using rhe_mono rhe_of_int by metis
  then show ?thesis using u by (simp add: round_pos_grid)
qed

lemma Number_value_pos_Fin:
  assumes "0 < x" "Number_value x = Fin a"
  shows "a = round_pos x"
  using assms by (simp add: Number_value_def split: if_splits)

lemma Number_value_neg:
  "Number_value (- x) = (case Number_value x of
      Fin r \<Rightarrow> Fin (- r) | PosInf \<Rightarrow> NegInf | NegInf \<Rightarrow> PosInf | NaN \<Rightarrow> NaN)"
  by (simp add: Number_value_def)

lemma Number_value_neg_Fin:
  assumes "x < 0" "Number_value x = Fin a"
  shows "a = - round_pos (- x)"
proof -
  have "Number_value (- x) = Fin (- a)" using assms(2) by (simp add: Number_value_neg)
  then have "- a = round_pos (- x)" using assms(1) by (intro Number_value_pos_Fin) auto
  then show ?thesis by simp
qed

lemma Number_value_mono:
  assumes "x \<le> y" "Number_value x = Fin a" "Number_value y = Fin b"
  shows "a \<le> b"
proof -
  consider "0 < x" | "x = 0" | "x < 0" by linarith
  then show ?thesis
  proof cases
    case 1
    then have "0 < y" using assms(1) by simp
    then show ?thesis
      using 1 assms round_pos_mono [OF 1 assms(1)] Number_value_pos_Fin by metis
  next
    case 2
    then have a: "a = 0" using assms(2) by (simp add: Number_value_def)
    show ?thesis
    proof (cases "y = 0")
      case True
      then show ?thesis using a assms(3) by (simp add: Number_value_def)
    next
      case False
      then have y: "0 < y" using 2 assms(1) by simp
      then have "b = round_pos y" using assms(3) by (rule Number_value_pos_Fin)
      then show ?thesis using a round_pos_nonneg [of y] y by simp
    qed
  next
    case 3
    then have a: "a = - round_pos (- x)" using assms(2) by (rule Number_value_neg_Fin)
    have a0: "a \<le> 0" using a round_pos_nonneg [of "- x"] 3 by simp
    consider "0 < y" | "y = 0" | "y < 0" by linarith
    then show ?thesis
    proof cases
      case 1
      then have "b = round_pos y" using assms(3) by (rule Number_value_pos_Fin)
      then show ?thesis using a0 round_pos_nonneg [of y] 1 by simp
    next
      case 2
      then show ?thesis using a0 assms(3) by (simp add: Number_value_def)
    next
      case y: 3
      then have b: "b = - round_pos (- y)" using assms(3) by (rule Number_value_neg_Fin)
      have "round_pos (- y) \<le> round_pos (- x)" using y assms(1) by (intro round_pos_mono) auto
      then show ?thesis using a b by simp
    qed
  qed
qed

subsection \<open>Printing a number gives a decimal that reads back as the number\<close>

lemma full_digits_bound: "1074 \<le> full_digits"
  by (simp add: full_digits_def)

lemma Number_scaled_int:
  assumes "0 < q" "Number_value q = Fin q"
  shows "\<exists>n::int. q * pow_int 2 full_digits = of_int n"
proof -
  let ?m = "round_half_even (q / pow_int 2 (grid q - 52))"
  have q: "q = of_int ?m * pow_int 2 (grid q - 52)"
    using Number_value_pos_Fin [OF assms] by (simp add: round_pos_grid)
  have g: "0 \<le> grid q - 52 + full_digits" using full_digits_bound by (simp add: grid_def)
  have "pow_int 2 (grid q - 52) * pow_int 2 full_digits = pow_int 2 (grid q - 52 + full_digits)"
    by (rule pow_int_add [symmetric]) simp
  also have "\<dots> = 2 ^ nat (grid q - 52 + full_digits)" using g by (simp add: pow_int_def)
  finally have "q * pow_int 2 full_digits = of_int ?m * 2 ^ nat (grid q - 52 + full_digits)"
    using q by (metis mult.assoc)
  then have "q * pow_int 2 full_digits = of_int (?m * 2 ^ nat (grid q - 52 + full_digits))"
    by simp
  then show ?thesis by blast
qed

lemma pow_int_10_split: "pow_int 10 e = pow_int 2 e * pow_int 5 e"
proof -
  have "pow_int 10 e = (2 * 5) powi e" by (simp add: pow_int_powi)
  also have "\<dots> = 2 powi e * 5 powi e" by (rule power_int_mult_distrib)
  finally show ?thesis by (simp add: pow_int_powi)
qed

lemma pow_int_inverse: "b \<noteq> 0 \<Longrightarrow> pow_int b e * pow_int b (- e) = 1"
  using pow_int_add [of b e "- e"] by (simp add: pow_int_def)

lemma full_expansion:
  assumes "0 < q" "Number_value q = Fin q"
  shows "decimal_value (\<lfloor>q * pow_int 10 full_digits\<rfloor>, - full_digits) = q"
proof -
  obtain n :: int where n: "q * pow_int 2 full_digits = of_int n"
    using Number_scaled_int [OF assms] by blast
  have five: "pow_int 5 full_digits = of_int (5 ^ nat full_digits)"
    using full_digits_bound by (simp add: pow_int_def)
  have "q * pow_int 10 full_digits = (q * pow_int 2 full_digits) * pow_int 5 full_digits"
    by (simp add: pow_int_10_split)
  also have "\<dots> = of_int (n * 5 ^ nat full_digits)" unfolding n five by simp
  finally have fl: "of_int \<lfloor>q * pow_int 10 full_digits\<rfloor> = q * pow_int 10 full_digits"
    by (metis floor_of_int)
  have "decimal_value (\<lfloor>q * pow_int 10 full_digits\<rfloor>, - full_digits)
      = q * (pow_int 10 full_digits * pow_int 10 (- full_digits))"
    unfolding decimal_value_def fst_conv snd_conv fl by (simp only: mult.assoc)
  then show ?thesis by (simp add: pow_int_inverse)
qed

lemma strip_zeros_value: "decimal_value (strip_zeros se) = decimal_value se"
proof (induction se rule: strip_zeros.induct)
  case (1 s e)
  show ?case
  proof (cases "s \<noteq> 0 \<and> s mod 10 = 0")
    case True
    then have eq: "strip_zeros (s, e) = strip_zeros (s div 10, e + 1)"
      by (subst strip_zeros.simps) simp
    have s: "s = s div 10 * 10" using True by presburger
    have "decimal_value (s div 10, e + 1) = of_int (s div 10) * (pow_int 10 e * 10)"
      by (simp add: decimal_value_def pow_int_Suc)
    also have "\<dots> = of_int (s div 10 * 10) * pow_int 10 e" by simp
    also have "\<dots> = decimal_value (s, e)" using s by (simp add: decimal_value_def)
    finally show ?thesis using 1 True eq by simp
  next
    case False
    then show ?thesis by (subst strip_zeros.simps) auto
  qed
qed

lemma shortest_from_roundtrip:
  assumes "0 < q" "Number_value q = Fin q"
  shows "Number_value (decimal_value (shortest_from k q)) = Fin q"
  using assms
proof (induction k q rule: shortest_from.induct)
  case (1 k q)
  show ?case
  proof (cases "17 < k")
    case True
    then show ?thesis using full_expansion [OF 1(2,3)] 1(3)
      by (subst shortest_from.simps) simp
  next
    case False
    note ih = 1(1) [OF False refl refl refl refl refl refl _ _ _ 1(2,3)]
    show ?thesis
      using False ih
      by (subst shortest_from.simps) (auto simp: Let_def decimal_value_def)
  qed
qed

lemma shortest_roundtrip:
  "0 < q \<Longrightarrow> Number_value q = Fin q \<Longrightarrow> Number_value (decimal_value (shortest q)) = Fin q"
  by (simp add: shortest_def strip_zeros_value shortest_from_roundtrip)

lemma decimal_of_roundtrip:
  assumes "Number_value q = Fin q"
  shows "Number_value (decimal_of q) = Fin q"
proof -
  consider "0 < q" | "q = 0" | "q < 0" by linarith
  then show ?thesis
  proof cases
    case 1
    then show ?thesis using shortest_roundtrip [OF 1 assms] by (simp add: decimal_of_def)
  next
    case 2
    then show ?thesis by (simp add: decimal_of_def Number_value_def)
  next
    case 3
    have "Number_value (- q) = Fin (- q)" using assms by (simp add: Number_value_neg)
    then have "Number_value (decimal_value (shortest (- q))) = Fin (- q)"
      using 3 by (intro shortest_roundtrip) auto
    then show ?thesis using 3 by (simp add: decimal_of_def Number_value_neg)
  qed
qed

lemma decimal_of_strict_mono:
  assumes "Number_value p = Fin p" "Number_value q = Fin q" "p < q"
  shows "decimal_of p < decimal_of q"
proof (rule ccontr)
  assume "\<not> decimal_of p < decimal_of q"
  then have "decimal_of q \<le> decimal_of p" by simp
  then have "q \<le> p"
    using decimal_of_roundtrip [OF assms(2)] decimal_of_roundtrip [OF assms(1)]
    by (rule Number_value_mono)
  then show False using assms(3) by simp
qed

subsection \<open>One step of the digit search\<close>

lemma replicate_numeral_unfold: "replicate (numeral k) x = x # replicate (pred_numeral k) x"
  by (simp add: numeral_eq_Suc)


lemma shortest_from_step:
  assumes "k \<le> 17" "decade q = d" "sc = pow_int 10 (d + 1 - k)" "lo = \<lfloor>q / sc\<rfloor>"
    and "Number_value (of_int lo * sc) = x" "Number_value (of_int (lo + 1) * sc) = y"
  shows "shortest_from k q =
     (if x = Fin q \<and> y = Fin q then
        (if q - of_int lo * sc < of_int (lo + 1) * sc - q then (lo, d + 1 - k)
         else if of_int (lo + 1) * sc - q < q - of_int lo * sc then (lo + 1, d + 1 - k)
         else if even lo then (lo, d + 1 - k) else (lo + 1, d + 1 - k))
      else if x = Fin q then (lo, d + 1 - k)
      else if y = Fin q then (lo + 1, d + 1 - k)
      else shortest_from (k + 1) q)"
  using assms by (subst shortest_from.simps) (simp add: Let_def)

subsection \<open>The scaling loop only counts upwards\<close>


section \<open>Evaluation at the numbers of the examples\<close>

text \<open>
  Each lemma states the value of one step of the model at a concrete number; the
  rounding lemmas name the binade, the unit in the last place and the rounded
  significand, and the simplifier checks them.
\<close>

subsection \<open>The amount 1, and the record with base 100 and two decimals\<close>

lemma Number_1: "Number_value 1 = Fin 1"
  by (rule Number_value_pos [where e = "0" and u = "1 / 4503599627370496" and m = "4503599627370496", THEN trans])
    (simp_all add: round_half_even_def pow_int_def)

lemma Number_2: "Number_value 2 = Fin 2"
  by (rule Number_value_pos [where e = "1" and u = "1 / 2251799813685248" and m = "4503599627370496", THEN trans])
    (simp_all add: round_half_even_def pow_int_def)

lemma sh_1: "shortest 1 = (1, 0)"
proof -
  have d: "decade 1 = 0" by (rule decade_eqI) (simp_all add: pow_int_def)
  have s1: "shortest_from 1 1 = (1, 0)"
    by (subst shortest_from_step [where d = "0" and sc = "1" and lo = 1 and x = "Fin 1" and y = "Fin 2"])
      (simp_all add: d pow_int_def Number_1 Number_2)
  show ?thesis by (simp add: shortest_def s1 strip_zeros.simps)
qed

lemma ts_1: "ToString (Fin 1) = ''1''"
  by (simp add: ToString_def sh_1 format_pos_def digits_of.simps digit_char_def
      replicate_numeral_unfold)

lemma pi_1: "parseInt ''1'' = Fin 1"
  by (simp add: parseInt_def split_sign_def is_space_def is_digit_def digits_val_def digit_val_def Number_1)

lemma pf_1: "parseFloat ''1'' = Fin 1"
  by (simp add: parseFloat_def split_sign_def is_space_def is_digit_def digits_val_def digit_val_def
      exponent_part_def pow_int_def Number_1)

lemma ii_1: "isInteger (Fin 1)"
  by (simp add: isInteger_def ts_1 pi_1 pf_1 strict_eq_def isNaN_def)

lemma dp_1: "decimalPlaces (Fin 1) = 0"
proof -
  have l0: "decimalPlaces_loop (Fin 1) (Fin 1) 1 = 1"
    by (subst decimalPlaces_loop.simps) (simp add: ii_1 isFinite_def)
  show ?thesis by (simp add: decimalPlaces_def Math_abs_def l0)
qed

lemma p10_1: "Math_pow10 0 = Fin 1"
  by (simp add: Math_pow10_def pow_int_def Number_1)

lemma fm_1: "fmul (Fin 1) (Fin 1) = Fin 1"
  by (simp add: fmul_def Number_1)

lemma make_Money_1: "make_Money (Fin 1) c = \<lparr>amount = Fin 1, base = ''1'', decimals = 0, currency = c\<rparr>"
  by (simp add: make_Money_def dp_1 p10_1 fm_1 Math_floor_def ts_1)

lemma nv_1: "Number_value 100 = Fin 100"
  by (rule Number_value_pos [where e = "6" and u = "1 / 70368744177664" and m = "7036874417766400", THEN trans])
    (simp_all add: round_half_even_def pow_int_def)

lemma parseInt_100: "parseInt ''100'' = Fin 100"
  by (simp add: parseInt_def split_sign_def is_space_def is_digit_def digits_val_def digit_val_def nv_1)

lemma Math_pow10_2: "Math_pow10 2 = Fin 100"
  by (simp add: Math_pow10_def pow_int_def nv_1)

lemma fdiv_100_100: "fdiv (Fin 100) (Fin 100) = Fin 1"
  by (simp add: fdiv_def Number_1)

lemma nv_2: "Number_value 55 = Fin 55"
  by (rule Number_value_pos [where e = "5" and u = "1 / 140737488355328" and m = "7740561859543040", THEN trans])
    (simp_all add: round_half_even_def pow_int_def)

lemma parseInt_55: "parseInt ''55'' = Fin 55"
  by (simp add: parseInt_def split_sign_def is_space_def is_digit_def digits_val_def digit_val_def nv_2)

lemma nv_3: "Number_value 10 = Fin 10"
  by (rule Number_value_pos [where e = "3" and u = "1 / 562949953421312" and m = "5629499534213120", THEN trans])
    (simp_all add: round_half_even_def pow_int_def)

lemma Math_pow10_1: "Math_pow10 1 = Fin 10"
  by (simp add: Math_pow10_def pow_int_def nv_3)

lemma nv_4: "Number_value (11 / 2) = Fin (11 / 2)"
  by (rule Number_value_pos [where e = "2" and u = "1 / 1125899906842624" and m = "6192449487634432", THEN trans])
    (simp_all add: round_half_even_def pow_int_def)

lemma fdiv_55_10: "fdiv (Fin 55) (Fin 10) = Fin (11 / 2)"
  by (simp add: fdiv_def nv_4)

subsection \<open>An infinite amount\<close>

lemma ts_2: "ToString PosInf = ''Infinity''"
  by (simp add: ToString_def)

lemma pi_2: "parseInt ''Infinity'' = NaN"
  by (simp add: parseInt_def split_sign_def is_space_def is_digit_def digits_val_def digit_val_def)

lemma pf_2: "parseFloat ''Infinity'' = PosInf"
  by (simp add: parseFloat_def split_sign_def is_space_def is_digit_def digits_val_def digit_val_def
      exponent_part_def pow_int_def)

lemma ii_2: "\<not> isInteger PosInf"
  by (simp add: isInteger_def ts_2 pi_2 pf_2 strict_eq_def isNaN_def)

lemma dp_2: "decimalPlaces PosInf = 0"
proof -
  have l0: "decimalPlaces_loop PosInf PosInf 1 = 1"
    by (subst decimalPlaces_loop.simps) (simp add: ii_2 isFinite_def)
  show ?thesis by (simp add: decimalPlaces_def Math_abs_def l0)
qed

lemma fm_2: "fmul PosInf (Fin 1) = PosInf"
  by (simp add: fmul_def)

lemma make_Money_PosInf: "make_Money PosInf c = \<lparr>amount = PosInf, base = ''Infinity'', decimals = 0, currency = c\<rparr>"
  by (simp add: make_Money_def dp_2 p10_1 fm_2 Math_floor_def ts_2)

subsection \<open>An amount that is not a number\<close>

lemma ts_3: "ToString NaN = ''NaN''"
  by (simp add: ToString_def)

lemma pi_3: "parseInt ''NaN'' = NaN"
  by (simp add: parseInt_def split_sign_def is_space_def is_digit_def digits_val_def digit_val_def)

lemma pf_3: "parseFloat ''NaN'' = NaN"
  by (simp add: parseFloat_def split_sign_def is_space_def is_digit_def digits_val_def digit_val_def
      exponent_part_def pow_int_def)

lemma ii_3: "\<not> isInteger NaN"
  by (simp add: isInteger_def ts_3 pi_3 pf_3 strict_eq_def isNaN_def)

lemma dp_3: "decimalPlaces NaN = 0"
proof -
  have l0: "decimalPlaces_loop NaN NaN 1 = 1"
    by (subst decimalPlaces_loop.simps) (simp add: ii_3 isFinite_def)
  show ?thesis by (simp add: decimalPlaces_def Math_abs_def l0)
qed

lemma fm_3: "fmul NaN (Fin 1) = NaN"
  by (simp add: fmul_def)

lemma make_Money_NaN: "make_Money NaN c = \<lparr>amount = NaN, base = ''NaN'', decimals = 0, currency = c\<rparr>"
  by (simp add: make_Money_def dp_3 p10_1 fm_3 Math_floor_def ts_3)

subsection \<open>The amount 1000000000000000.125 and its reconstruction\<close>

lemma nv_5: "Number_value 1000000000000000 = Fin 1000000000000000"
  by (rule Number_value_pos [where e = "49" and u = "1 / 8" and m = "8000000000000000", THEN trans])
    (simp_all add: round_half_even_def pow_int_def)

lemma nv_6: "Number_value 2000000000000000 = Fin 2000000000000000"
  by (rule Number_value_pos [where e = "50" and u = "1 / 4" and m = "8000000000000000", THEN trans])
    (simp_all add: round_half_even_def pow_int_def)

lemma nv_7: "Number_value 1100000000000000 = Fin 1100000000000000"
  by (rule Number_value_pos [where e = "49" and u = "1 / 8" and m = "8800000000000000", THEN trans])
    (simp_all add: round_half_even_def pow_int_def)

lemma nv_8: "Number_value 1010000000000000 = Fin 1010000000000000"
  by (rule Number_value_pos [where e = "49" and u = "1 / 8" and m = "8080000000000000", THEN trans])
    (simp_all add: round_half_even_def pow_int_def)

lemma nv_9: "Number_value 1001000000000000 = Fin 1001000000000000"
  by (rule Number_value_pos [where e = "49" and u = "1 / 8" and m = "8008000000000000", THEN trans])
    (simp_all add: round_half_even_def pow_int_def)

lemma nv_10: "Number_value 1000100000000000 = Fin 1000100000000000"
  by (rule Number_value_pos [where e = "49" and u = "1 / 8" and m = "8000800000000000", THEN trans])
    (simp_all add: round_half_even_def pow_int_def)

lemma nv_11: "Number_value 1000010000000000 = Fin 1000010000000000"
  by (rule Number_value_pos [where e = "49" and u = "1 / 8" and m = "8000080000000000", THEN trans])
    (simp_all add: round_half_even_def pow_int_def)

lemma nv_12: "Number_value 1000001000000000 = Fin 1000001000000000"
  by (rule Number_value_pos [where e = "49" and u = "1 / 8" and m = "8000008000000000", THEN trans])
    (simp_all add: round_half_even_def pow_int_def)

lemma nv_13: "Number_value 1000000100000000 = Fin 1000000100000000"
  by (rule Number_value_pos [where e = "49" and u = "1 / 8" and m = "8000000800000000", THEN trans])
    (simp_all add: round_half_even_def pow_int_def)

lemma nv_14: "Number_value 1000000010000000 = Fin 1000000010000000"
  by (rule Number_value_pos [where e = "49" and u = "1 / 8" and m = "8000000080000000", THEN trans])
    (simp_all add: round_half_even_def pow_int_def)

lemma nv_15: "Number_value 1000000001000000 = Fin 1000000001000000"
  by (rule Number_value_pos [where e = "49" and u = "1 / 8" and m = "8000000008000000", THEN trans])
    (simp_all add: round_half_even_def pow_int_def)

lemma nv_16: "Number_value 1000000000100000 = Fin 1000000000100000"
  by (rule Number_value_pos [where e = "49" and u = "1 / 8" and m = "8000000000800000", THEN trans])
    (simp_all add: round_half_even_def pow_int_def)

lemma nv_17: "Number_value 1000000000010000 = Fin 1000000000010000"
  by (rule Number_value_pos [where e = "49" and u = "1 / 8" and m = "8000000000080000", THEN trans])
    (simp_all add: round_half_even_def pow_int_def)

lemma nv_18: "Number_value 1000000000001000 = Fin 1000000000001000"
  by (rule Number_value_pos [where e = "49" and u = "1 / 8" and m = "8000000000008000", THEN trans])
    (simp_all add: round_half_even_def pow_int_def)

lemma nv_19: "Number_value 1000000000000100 = Fin 1000000000000100"
  by (rule Number_value_pos [where e = "49" and u = "1 / 8" and m = "8000000000000800", THEN trans])
    (simp_all add: round_half_even_def pow_int_def)

lemma nv_20: "Number_value 1000000000000010 = Fin 1000000000000010"
  by (rule Number_value_pos [where e = "49" and u = "1 / 8" and m = "8000000000000080", THEN trans])
    (simp_all add: round_half_even_def pow_int_def)

lemma nv_21: "Number_value 1000000000000001 = Fin 1000000000000001"
  by (rule Number_value_pos [where e = "49" and u = "1 / 8" and m = "8000000000000008", THEN trans])
    (simp_all add: round_half_even_def pow_int_def)

lemma nv_22: "Number_value (10000000000000001 / 10) = Fin (8000000000000001 / 8)"
  by (rule Number_value_pos [where e = "49" and u = "1 / 8" and m = "8000000000000001", THEN trans])
    (simp_all add: round_half_even_def pow_int_def)

lemma nv_23: "Number_value (5000000000000001 / 5) = Fin (4000000000000001 / 4)"
  by (rule Number_value_pos [where e = "49" and u = "1 / 8" and m = "8000000000000002", THEN trans])
    (simp_all add: round_half_even_def pow_int_def)

lemma sh_2: "shortest (8000000000000001 / 8) = (10000000000000001, - 1)"
proof -
  have d: "decade (8000000000000001 / 8) = 15" by (rule decade_eqI) (simp_all add: pow_int_def)
  have s1: "shortest_from 1 (8000000000000001 / 8) = shortest_from 2 (8000000000000001 / 8)"
    by (subst shortest_from_step [where d = "15" and sc = "1000000000000000" and lo = 1 and x = "Fin 1000000000000000" and y = "Fin 2000000000000000"])
      (simp_all add: d pow_int_def nv_5 nv_6)
  have s2: "shortest_from 2 (8000000000000001 / 8) = shortest_from 3 (8000000000000001 / 8)"
    by (subst shortest_from_step [where d = "15" and sc = "100000000000000" and lo = 10 and x = "Fin 1000000000000000" and y = "Fin 1100000000000000"])
      (simp_all add: d pow_int_def nv_5 nv_7)
  have s3: "shortest_from 3 (8000000000000001 / 8) = shortest_from 4 (8000000000000001 / 8)"
    by (subst shortest_from_step [where d = "15" and sc = "10000000000000" and lo = 100 and x = "Fin 1000000000000000" and y = "Fin 1010000000000000"])
      (simp_all add: d pow_int_def nv_5 nv_8)
  have s4: "shortest_from 4 (8000000000000001 / 8) = shortest_from 5 (8000000000000001 / 8)"
    by (subst shortest_from_step [where d = "15" and sc = "1000000000000" and lo = 1000 and x = "Fin 1000000000000000" and y = "Fin 1001000000000000"])
      (simp_all add: d pow_int_def nv_5 nv_9)
  have s5: "shortest_from 5 (8000000000000001 / 8) = shortest_from 6 (8000000000000001 / 8)"
    by (subst shortest_from_step [where d = "15" and sc = "100000000000" and lo = 10000 and x = "Fin 1000000000000000" and y = "Fin 1000100000000000"])
      (simp_all add: d pow_int_def nv_5 nv_10)
  have s6: "shortest_from 6 (8000000000000001 / 8) = shortest_from 7 (8000000000000001 / 8)"
    by (subst shortest_from_step [where d = "15" and sc = "10000000000" and lo = 100000 and x = "Fin 1000000000000000" and y = "Fin 1000010000000000"])
      (simp_all add: d pow_int_def nv_5 nv_11)
  have s7: "shortest_from 7 (8000000000000001 / 8) = shortest_from 8 (8000000000000001 / 8)"
    by (subst shortest_from_step [where d = "15" and sc = "1000000000" and lo = 1000000 and x = "Fin 1000000000000000" and y = "Fin 1000001000000000"])
      (simp_all add: d pow_int_def nv_5 nv_12)
  have s8: "shortest_from 8 (8000000000000001 / 8) = shortest_from 9 (8000000000000001 / 8)"
    by (subst shortest_from_step [where d = "15" and sc = "100000000" and lo = 10000000 and x = "Fin 1000000000000000" and y = "Fin 1000000100000000"])
      (simp_all add: d pow_int_def nv_5 nv_13)
  have s9: "shortest_from 9 (8000000000000001 / 8) = shortest_from 10 (8000000000000001 / 8)"
    by (subst shortest_from_step [where d = "15" and sc = "10000000" and lo = 100000000 and x = "Fin 1000000000000000" and y = "Fin 1000000010000000"])
      (simp_all add: d pow_int_def nv_5 nv_14)
  have s10: "shortest_from 10 (8000000000000001 / 8) = shortest_from 11 (8000000000000001 / 8)"
    by (subst shortest_from_step [where d = "15" and sc = "1000000" and lo = 1000000000 and x = "Fin 1000000000000000" and y = "Fin 1000000001000000"])
      (simp_all add: d pow_int_def nv_5 nv_15)
  have s11: "shortest_from 11 (8000000000000001 / 8) = shortest_from 12 (8000000000000001 / 8)"
    by (subst shortest_from_step [where d = "15" and sc = "100000" and lo = 10000000000 and x = "Fin 1000000000000000" and y = "Fin 1000000000100000"])
      (simp_all add: d pow_int_def nv_5 nv_16)
  have s12: "shortest_from 12 (8000000000000001 / 8) = shortest_from 13 (8000000000000001 / 8)"
    by (subst shortest_from_step [where d = "15" and sc = "10000" and lo = 100000000000 and x = "Fin 1000000000000000" and y = "Fin 1000000000010000"])
      (simp_all add: d pow_int_def nv_5 nv_17)
  have s13: "shortest_from 13 (8000000000000001 / 8) = shortest_from 14 (8000000000000001 / 8)"
    by (subst shortest_from_step [where d = "15" and sc = "1000" and lo = 1000000000000 and x = "Fin 1000000000000000" and y = "Fin 1000000000001000"])
      (simp_all add: d pow_int_def nv_5 nv_18)
  have s14: "shortest_from 14 (8000000000000001 / 8) = shortest_from 15 (8000000000000001 / 8)"
    by (subst shortest_from_step [where d = "15" and sc = "100" and lo = 10000000000000 and x = "Fin 1000000000000000" and y = "Fin 1000000000000100"])
      (simp_all add: d pow_int_def nv_5 nv_19)
  have s15: "shortest_from 15 (8000000000000001 / 8) = shortest_from 16 (8000000000000001 / 8)"
    by (subst shortest_from_step [where d = "15" and sc = "10" and lo = 100000000000000 and x = "Fin 1000000000000000" and y = "Fin 1000000000000010"])
      (simp_all add: d pow_int_def nv_5 nv_20)
  have s16: "shortest_from 16 (8000000000000001 / 8) = shortest_from 17 (8000000000000001 / 8)"
    by (subst shortest_from_step [where d = "15" and sc = "1" and lo = 1000000000000000 and x = "Fin 1000000000000000" and y = "Fin 1000000000000001"])
      (simp_all add: d pow_int_def nv_5 nv_21)
  have s17: "shortest_from 17 (8000000000000001 / 8) = (10000000000000001, - 1)"
    by (subst shortest_from_step [where d = "15" and sc = "1 / 10" and lo = 10000000000000001 and x = "Fin (8000000000000001 / 8)" and y = "Fin (4000000000000001 / 4)"])
      (simp_all add: d pow_int_def nv_22 nv_23)
  show ?thesis by (simp add: shortest_def s1 s2 s3 s4 s5 s6 s7 s8 s9 s10 s11 s12 s13 s14 s15 s16 s17 strip_zeros.simps)
qed

lemma ts_4: "ToString (Fin (8000000000000001 / 8)) = ''1000000000000000.1''"
  by (simp add: ToString_def sh_2 format_pos_def digits_of.simps digit_char_def
      replicate_numeral_unfold)

lemma pi_4: "parseInt ''1000000000000000.1'' = Fin 1000000000000000"
  by (simp add: parseInt_def split_sign_def is_space_def is_digit_def digits_val_def digit_val_def nv_5)

lemma pf_4: "parseFloat ''1000000000000000.1'' = Fin (8000000000000001 / 8)"
  by (simp add: parseFloat_def split_sign_def is_space_def is_digit_def digits_val_def digit_val_def
      exponent_part_def pow_int_def nv_22)

lemma ii_4: "\<not> isInteger (Fin (8000000000000001 / 8))"
  by (simp add: isInteger_def ts_4 pi_4 pf_4 strict_eq_def isNaN_def)

lemma nv_24: "Number_value (40000000000000005 / 4) = Fin 10000000000000002"
  by (rule Number_value_pos [where e = "53" and u = "2" and m = "5000000000000001", THEN trans])
    (simp_all add: round_half_even_def pow_int_def)

lemma fm_4: "fmul (Fin (8000000000000001 / 8)) (Fin 10) = Fin 10000000000000002"
  by (simp add: fmul_def nv_24)

lemma nv_25: "Number_value 10000000000000000 = Fin 10000000000000000"
  by (rule Number_value_pos [where e = "53" and u = "2" and m = "5000000000000000", THEN trans])
    (simp_all add: round_half_even_def pow_int_def)

lemma nv_26: "Number_value 20000000000000000 = Fin 20000000000000000"
  by (rule Number_value_pos [where e = "54" and u = "4" and m = "5000000000000000", THEN trans])
    (simp_all add: round_half_even_def pow_int_def)

lemma nv_27: "Number_value 11000000000000000 = Fin 11000000000000000"
  by (rule Number_value_pos [where e = "53" and u = "2" and m = "5500000000000000", THEN trans])
    (simp_all add: round_half_even_def pow_int_def)

lemma nv_28: "Number_value 10100000000000000 = Fin 10100000000000000"
  by (rule Number_value_pos [where e = "53" and u = "2" and m = "5050000000000000", THEN trans])
    (simp_all add: round_half_even_def pow_int_def)

lemma nv_29: "Number_value 10010000000000000 = Fin 10010000000000000"
  by (rule Number_value_pos [where e = "53" and u = "2" and m = "5005000000000000", THEN trans])
    (simp_all add: round_half_even_def pow_int_def)

lemma nv_30: "Number_value 10001000000000000 = Fin 10001000000000000"
  by (rule Number_value_pos [where e = "53" and u = "2" and m = "5000500000000000", THEN trans])
    (simp_all add: round_half_even_def pow_int_def)

lemma nv_31: "Number_value 10000100000000000 = Fin 10000100000000000"
  by (rule Number_value_pos [where e = "53" and u = "2" and m = "5000050000000000", THEN trans])
    (simp_all add: round_half_even_def pow_int_def)

lemma nv_32: "Number_value 10000010000000000 = Fin 10000010000000000"
  by (rule Number_value_pos [where e = "53" and u = "2" and m = "5000005000000000", THEN trans])
    (simp_all add: round_half_even_def pow_int_def)

lemma nv_33: "Number_value 10000001000000000 = Fin 10000001000000000"
  by (rule Number_value_pos [where e = "53" and u = "2" and m = "5000000500000000", THEN trans])
    (simp_all add: round_half_even_def pow_int_def)

lemma nv_34: "Number_value 10000000100000000 = Fin 10000000100000000"
  by (rule Number_value_pos [where e = "53" and u = "2" and m = "5000000050000000", THEN trans])
    (simp_all add: round_half_even_def pow_int_def)

lemma nv_35: "Number_value 10000000010000000 = Fin 10000000010000000"
  by (rule Number_value_pos [where e = "53" and u = "2" and m = "5000000005000000", THEN trans])
    (simp_all add: round_half_even_def pow_int_def)

lemma nv_36: "Number_value 10000000001000000 = Fin 10000000001000000"
  by (rule Number_value_pos [where e = "53" and u = "2" and m = "5000000000500000", THEN trans])
    (simp_all add: round_half_even_def pow_int_def)

lemma nv_37: "Number_value 10000000000100000 = Fin 10000000000100000"
  by (rule Number_value_pos [where e = "53" and u = "2" and m = "5000000000050000", THEN trans])
    (simp_all add: round_half_even_def pow_int_def)

lemma nv_38: "Number_value 10000000000010000 = Fin 10000000000010000"
  by (rule Number_value_pos [where e = "53" and u = "2" and m = "5000000000005000", THEN trans])
    (simp_all add: round_half_even_def pow_int_def)

lemma nv_39: "Number_value 10000000000001000 = Fin 10000000000001000"
  by (rule Number_value_pos [where e = "53" and u = "2" and m = "5000000000000500", THEN trans])
    (simp_all add: round_half_even_def pow_int_def)

lemma nv_40: "Number_value 10000000000000100 = Fin 10000000000000100"
  by (rule Number_value_pos [where e = "53" and u = "2" and m = "5000000000000050", THEN trans])
    (simp_all add: round_half_even_def pow_int_def)

lemma nv_41: "Number_value 10000000000000010 = Fin 10000000000000010"
  by (rule Number_value_pos [where e = "53" and u = "2" and m = "5000000000000005", THEN trans])
    (simp_all add: round_half_even_def pow_int_def)

lemma nv_42: "Number_value 10000000000000002 = Fin 10000000000000002"
  by (rule Number_value_pos [where e = "53" and u = "2" and m = "5000000000000001", THEN trans])
    (simp_all add: round_half_even_def pow_int_def)

lemma nv_43: "Number_value 10000000000000003 = Fin 10000000000000004"
  by (rule Number_value_pos [where e = "53" and u = "2" and m = "5000000000000002", THEN trans])
    (simp_all add: round_half_even_def pow_int_def)

lemma sh_3: "shortest 10000000000000002 = (10000000000000002, 0)"
proof -
  have d: "decade 10000000000000002 = 16" by (rule decade_eqI) (simp_all add: pow_int_def)
  have s1: "shortest_from 1 10000000000000002 = shortest_from 2 10000000000000002"
    by (subst shortest_from_step [where d = "16" and sc = "10000000000000000" and lo = 1 and x = "Fin 10000000000000000" and y = "Fin 20000000000000000"])
      (simp_all add: d pow_int_def nv_25 nv_26)
  have s2: "shortest_from 2 10000000000000002 = shortest_from 3 10000000000000002"
    by (subst shortest_from_step [where d = "16" and sc = "1000000000000000" and lo = 10 and x = "Fin 10000000000000000" and y = "Fin 11000000000000000"])
      (simp_all add: d pow_int_def nv_25 nv_27)
  have s3: "shortest_from 3 10000000000000002 = shortest_from 4 10000000000000002"
    by (subst shortest_from_step [where d = "16" and sc = "100000000000000" and lo = 100 and x = "Fin 10000000000000000" and y = "Fin 10100000000000000"])
      (simp_all add: d pow_int_def nv_25 nv_28)
  have s4: "shortest_from 4 10000000000000002 = shortest_from 5 10000000000000002"
    by (subst shortest_from_step [where d = "16" and sc = "10000000000000" and lo = 1000 and x = "Fin 10000000000000000" and y = "Fin 10010000000000000"])
      (simp_all add: d pow_int_def nv_25 nv_29)
  have s5: "shortest_from 5 10000000000000002 = shortest_from 6 10000000000000002"
    by (subst shortest_from_step [where d = "16" and sc = "1000000000000" and lo = 10000 and x = "Fin 10000000000000000" and y = "Fin 10001000000000000"])
      (simp_all add: d pow_int_def nv_25 nv_30)
  have s6: "shortest_from 6 10000000000000002 = shortest_from 7 10000000000000002"
    by (subst shortest_from_step [where d = "16" and sc = "100000000000" and lo = 100000 and x = "Fin 10000000000000000" and y = "Fin 10000100000000000"])
      (simp_all add: d pow_int_def nv_25 nv_31)
  have s7: "shortest_from 7 10000000000000002 = shortest_from 8 10000000000000002"
    by (subst shortest_from_step [where d = "16" and sc = "10000000000" and lo = 1000000 and x = "Fin 10000000000000000" and y = "Fin 10000010000000000"])
      (simp_all add: d pow_int_def nv_25 nv_32)
  have s8: "shortest_from 8 10000000000000002 = shortest_from 9 10000000000000002"
    by (subst shortest_from_step [where d = "16" and sc = "1000000000" and lo = 10000000 and x = "Fin 10000000000000000" and y = "Fin 10000001000000000"])
      (simp_all add: d pow_int_def nv_25 nv_33)
  have s9: "shortest_from 9 10000000000000002 = shortest_from 10 10000000000000002"
    by (subst shortest_from_step [where d = "16" and sc = "100000000" and lo = 100000000 and x = "Fin 10000000000000000" and y = "Fin 10000000100000000"])
      (simp_all add: d pow_int_def nv_25 nv_34)
  have s10: "shortest_from 10 10000000000000002 = shortest_from 11 10000000000000002"
    by (subst shortest_from_step [where d = "16" and sc = "10000000" and lo = 1000000000 and x = "Fin 10000000000000000" and y = "Fin 10000000010000000"])
      (simp_all add: d pow_int_def nv_25 nv_35)
  have s11: "shortest_from 11 10000000000000002 = shortest_from 12 10000000000000002"
    by (subst shortest_from_step [where d = "16" and sc = "1000000" and lo = 10000000000 and x = "Fin 10000000000000000" and y = "Fin 10000000001000000"])
      (simp_all add: d pow_int_def nv_25 nv_36)
  have s12: "shortest_from 12 10000000000000002 = shortest_from 13 10000000000000002"
    by (subst shortest_from_step [where d = "16" and sc = "100000" and lo = 100000000000 and x = "Fin 10000000000000000" and y = "Fin 10000000000100000"])
      (simp_all add: d pow_int_def nv_25 nv_37)
  have s13: "shortest_from 13 10000000000000002 = shortest_from 14 10000000000000002"
    by (subst shortest_from_step [where d = "16" and sc = "10000" and lo = 1000000000000 and x = "Fin 10000000000000000" and y = "Fin 10000000000010000"])
      (simp_all add: d pow_int_def nv_25 nv_38)
  have s14: "shortest_from 14 10000000000000002 = shortest_from 15 10000000000000002"
    by (subst shortest_from_step [where d = "16" and sc = "1000" and lo = 10000000000000 and x = "Fin 10000000000000000" and y = "Fin 10000000000001000"])
      (simp_all add: d pow_int_def nv_25 nv_39)
  have s15: "shortest_from 15 10000000000000002 = shortest_from 16 10000000000000002"
    by (subst shortest_from_step [where d = "16" and sc = "100" and lo = 100000000000000 and x = "Fin 10000000000000000" and y = "Fin 10000000000000100"])
      (simp_all add: d pow_int_def nv_25 nv_40)
  have s16: "shortest_from 16 10000000000000002 = shortest_from 17 10000000000000002"
    by (subst shortest_from_step [where d = "16" and sc = "10" and lo = 1000000000000000 and x = "Fin 10000000000000000" and y = "Fin 10000000000000010"])
      (simp_all add: d pow_int_def nv_25 nv_41)
  have s17: "shortest_from 17 10000000000000002 = (10000000000000002, 0)"
    by (subst shortest_from_step [where d = "16" and sc = "1" and lo = 10000000000000002 and x = "Fin 10000000000000002" and y = "Fin 10000000000000004"])
      (simp_all add: d pow_int_def nv_42 nv_43)
  show ?thesis by (simp add: shortest_def s1 s2 s3 s4 s5 s6 s7 s8 s9 s10 s11 s12 s13 s14 s15 s16 s17 strip_zeros.simps)
qed

lemma ts_5: "ToString (Fin 10000000000000002) = ''10000000000000002''"
  by (simp add: ToString_def sh_3 format_pos_def digits_of.simps digit_char_def
      replicate_numeral_unfold)

lemma parseInt_base: "parseInt ''10000000000000002'' = Fin 10000000000000002"
  by (simp add: parseInt_def split_sign_def is_space_def is_digit_def digits_val_def digit_val_def nv_42)

lemma pf_5: "parseFloat ''10000000000000002'' = Fin 10000000000000002"
  by (simp add: parseFloat_def split_sign_def is_space_def is_digit_def digits_val_def digit_val_def
      exponent_part_def pow_int_def nv_42)

lemma ii_5: "isInteger (Fin 10000000000000002)"
  by (simp add: isInteger_def ts_5 parseInt_base pf_5 strict_eq_def isNaN_def)

lemma dp_4: "decimalPlaces (Fin (8000000000000001 / 8)) = 1"
proof -
  have l0: "decimalPlaces_loop (Fin (8000000000000001 / 8)) (Fin (8000000000000001 / 8)) 1 = decimalPlaces_loop (Fin (8000000000000001 / 8)) (Fin 10000000000000002) 2"
    by (subst decimalPlaces_loop.simps) (simp add: ii_4 isFinite_def Math_pow10_1 fm_4)
  have l1: "decimalPlaces_loop (Fin (8000000000000001 / 8)) (Fin 10000000000000002) 2 = 2"
    by (subst decimalPlaces_loop.simps) (simp add: ii_5 isFinite_def)
  show ?thesis by (simp add: decimalPlaces_def Math_abs_def l0 l1)
qed

lemma make_Money_1e15_eighth: "make_Money (Fin (8000000000000001 / 8)) c = \<lparr>amount = Fin (8000000000000001 / 8), base = ''10000000000000002'', decimals = 1, currency = c\<rparr>"
  by (simp add: make_Money_def dp_4 Math_pow10_1 fm_4 Math_floor_def ts_5)

lemma fdiv_reconstruct: "fdiv (Fin 10000000000000002) (Fin 10) = Fin (4000000000000001 / 4)"
  by (simp add: fdiv_def nv_23)

lemma nv_44: "Number_value (10000000000000003 / 10) = Fin (4000000000000001 / 4)"
  by (rule Number_value_pos [where e = "49" and u = "1 / 8" and m = "8000000000000002", THEN trans])
    (simp_all add: round_half_even_def pow_int_def)

lemma sh_4: "shortest (4000000000000001 / 4) = (10000000000000002, - 1)"
proof -
  have d: "decade (4000000000000001 / 4) = 15" by (rule decade_eqI) (simp_all add: pow_int_def)
  have s1: "shortest_from 1 (4000000000000001 / 4) = shortest_from 2 (4000000000000001 / 4)"
    by (subst shortest_from_step [where d = "15" and sc = "1000000000000000" and lo = 1 and x = "Fin 1000000000000000" and y = "Fin 2000000000000000"])
      (simp_all add: d pow_int_def nv_5 nv_6)
  have s2: "shortest_from 2 (4000000000000001 / 4) = shortest_from 3 (4000000000000001 / 4)"
    by (subst shortest_from_step [where d = "15" and sc = "100000000000000" and lo = 10 and x = "Fin 1000000000000000" and y = "Fin 1100000000000000"])
      (simp_all add: d pow_int_def nv_5 nv_7)
  have s3: "shortest_from 3 (4000000000000001 / 4) = shortest_from 4 (4000000000000001 / 4)"
    by (subst shortest_from_step [where d = "15" and sc = "10000000000000" and lo = 100 and x = "Fin 1000000000000000" and y = "Fin 1010000000000000"])
      (simp_all add: d pow_int_def nv_5 nv_8)
  have s4: "shortest_from 4 (4000000000000001 / 4) = shortest_from 5 (4000000000000001 / 4)"
    by (subst shortest_from_step [where d = "15" and sc = "1000000000000" and lo = 1000 and x = "Fin 1000000000000000" and y = "Fin 1001000000000000"])
      (simp_all add: d pow_int_def nv_5 nv_9)
  have s5: "shortest_from 5 (4000000000000001 / 4) = shortest_from 6 (4000000000000001 / 4)"
    by (subst shortest_from_step [where d = "15" and sc = "100000000000" and lo = 10000 and x = "Fin 1000000000000000" and y = "Fin 1000100000000000"])
      (simp_all add: d pow_int_def nv_5 nv_10)
  have s6: "shortest_from 6 (4000000000000001 / 4) = shortest_from 7 (4000000000000001 / 4)"
    by (subst shortest_from_step [where d = "15" and sc = "10000000000" and lo = 100000 and x = "Fin 1000000000000000" and y = "Fin 1000010000000000"])
      (simp_all add: d pow_int_def nv_5 nv_11)
  have s7: "shortest_from 7 (4000000000000001 / 4) = shortest_from 8 (4000000000000001 / 4)"
    by (subst shortest_from_step [where d = "15" and sc = "1000000000" and lo = 1000000 and x = "Fin 1000000000000000" and y = "Fin 1000001000000000"])
      (simp_all add: d pow_int_def nv_5 nv_12)
  have s8: "shortest_from 8 (4000000000000001 / 4) = shortest_from 9 (4000000000000001 / 4)"
    by (subst shortest_from_step [where d = "15" and sc = "100000000" and lo = 10000000 and x = "Fin 1000000000000000" and y = "Fin 1000000100000000"])
      (simp_all add: d pow_int_def nv_5 nv_13)
  have s9: "shortest_from 9 (4000000000000001 / 4) = shortest_from 10 (4000000000000001 / 4)"
    by (subst shortest_from_step [where d = "15" and sc = "10000000" and lo = 100000000 and x = "Fin 1000000000000000" and y = "Fin 1000000010000000"])
      (simp_all add: d pow_int_def nv_5 nv_14)
  have s10: "shortest_from 10 (4000000000000001 / 4) = shortest_from 11 (4000000000000001 / 4)"
    by (subst shortest_from_step [where d = "15" and sc = "1000000" and lo = 1000000000 and x = "Fin 1000000000000000" and y = "Fin 1000000001000000"])
      (simp_all add: d pow_int_def nv_5 nv_15)
  have s11: "shortest_from 11 (4000000000000001 / 4) = shortest_from 12 (4000000000000001 / 4)"
    by (subst shortest_from_step [where d = "15" and sc = "100000" and lo = 10000000000 and x = "Fin 1000000000000000" and y = "Fin 1000000000100000"])
      (simp_all add: d pow_int_def nv_5 nv_16)
  have s12: "shortest_from 12 (4000000000000001 / 4) = shortest_from 13 (4000000000000001 / 4)"
    by (subst shortest_from_step [where d = "15" and sc = "10000" and lo = 100000000000 and x = "Fin 1000000000000000" and y = "Fin 1000000000010000"])
      (simp_all add: d pow_int_def nv_5 nv_17)
  have s13: "shortest_from 13 (4000000000000001 / 4) = shortest_from 14 (4000000000000001 / 4)"
    by (subst shortest_from_step [where d = "15" and sc = "1000" and lo = 1000000000000 and x = "Fin 1000000000000000" and y = "Fin 1000000000001000"])
      (simp_all add: d pow_int_def nv_5 nv_18)
  have s14: "shortest_from 14 (4000000000000001 / 4) = shortest_from 15 (4000000000000001 / 4)"
    by (subst shortest_from_step [where d = "15" and sc = "100" and lo = 10000000000000 and x = "Fin 1000000000000000" and y = "Fin 1000000000000100"])
      (simp_all add: d pow_int_def nv_5 nv_19)
  have s15: "shortest_from 15 (4000000000000001 / 4) = shortest_from 16 (4000000000000001 / 4)"
    by (subst shortest_from_step [where d = "15" and sc = "10" and lo = 100000000000000 and x = "Fin 1000000000000000" and y = "Fin 1000000000000010"])
      (simp_all add: d pow_int_def nv_5 nv_20)
  have s16: "shortest_from 16 (4000000000000001 / 4) = shortest_from 17 (4000000000000001 / 4)"
    by (subst shortest_from_step [where d = "15" and sc = "1" and lo = 1000000000000000 and x = "Fin 1000000000000000" and y = "Fin 1000000000000001"])
      (simp_all add: d pow_int_def nv_5 nv_21)
  have s17: "shortest_from 17 (4000000000000001 / 4) = (10000000000000002, - 1)"
    by (subst shortest_from_step [where d = "15" and sc = "1 / 10" and lo = 10000000000000002 and x = "Fin (4000000000000001 / 4)" and y = "Fin (4000000000000001 / 4)"])
      (simp_all add: d pow_int_def nv_23 nv_44)
  show ?thesis by (simp add: shortest_def s1 s2 s3 s4 s5 s6 s7 s8 s9 s10 s11 s12 s13 s14 s15 s16 s17 strip_zeros.simps)
qed

lemma ts_6: "ToString (Fin (4000000000000001 / 4)) = ''1000000000000000.2''"
  by (simp add: ToString_def sh_4 format_pos_def digits_of.simps digit_char_def
      replicate_numeral_unfold)

lemma pi_5: "parseInt ''1000000000000000.2'' = Fin 1000000000000000"
  by (simp add: parseInt_def split_sign_def is_space_def is_digit_def digits_val_def digit_val_def nv_5)

lemma pf_6: "parseFloat ''1000000000000000.2'' = Fin (4000000000000001 / 4)"
  by (simp add: parseFloat_def split_sign_def is_space_def is_digit_def digits_val_def digit_val_def
      exponent_part_def pow_int_def nv_23)

lemma ii_6: "\<not> isInteger (Fin (4000000000000001 / 4))"
  by (simp add: isInteger_def ts_6 pi_5 pf_6 strict_eq_def isNaN_def)

lemma nv_45: "Number_value (20000000000000005 / 2) = Fin 10000000000000002"
  by (rule Number_value_pos [where e = "53" and u = "2" and m = "5000000000000001", THEN trans])
    (simp_all add: round_half_even_def pow_int_def)

lemma fm_5: "fmul (Fin (4000000000000001 / 4)) (Fin 10) = Fin 10000000000000002"
  by (simp add: fmul_def nv_45)

lemma dp_5: "decimalPlaces (Fin (4000000000000001 / 4)) = 1"
proof -
  have l0: "decimalPlaces_loop (Fin (4000000000000001 / 4)) (Fin (4000000000000001 / 4)) 1 = decimalPlaces_loop (Fin (4000000000000001 / 4)) (Fin 10000000000000002) 2"
    by (subst decimalPlaces_loop.simps) (simp add: ii_6 isFinite_def Math_pow10_1 fm_5)
  have l1: "decimalPlaces_loop (Fin (4000000000000001 / 4)) (Fin 10000000000000002) 2 = 2"
    by (subst decimalPlaces_loop.simps) (simp add: ii_5 isFinite_def)
  show ?thesis by (simp add: decimalPlaces_def Math_abs_def l0 l1)
qed

lemma make_Money_1e15_quarter: "make_Money (Fin (4000000000000001 / 4)) c = \<lparr>amount = Fin (4000000000000001 / 4), base = ''10000000000000002'', decimals = 1, currency = c\<rparr>"
  by (simp add: make_Money_def dp_5 Math_pow10_1 fm_5 Math_floor_def ts_5)

subsection \<open>The amount 6e-21, which needs twenty-one decimals\<close>
















































































































































































































































































subsection \<open>The decimals of the arithmetic examples\<close>

lemma Number_0_1: "Number_value (1 / 10) = Fin (3602879701896397 / 36028797018963968)"
  by (rule Number_value_pos [where e = "-4" and u = "1 / 72057594037927936" and m = "7205759403792794", THEN trans])
    (simp_all add: round_half_even_def pow_int_def)

lemma Number_0_2: "Number_value (1 / 5) = Fin (3602879701896397 / 18014398509481984)"
  by (rule Number_value_pos [where e = "-3" and u = "1 / 36028797018963968" and m = "7205759403792794", THEN trans])
    (simp_all add: round_half_even_def pow_int_def)

lemma sh_27: "shortest (3602879701896397 / 36028797018963968) = (1, - 1)"
proof -
  have d: "decade (3602879701896397 / 36028797018963968) = - 1" by (rule decade_eqI) (simp_all add: pow_int_def)
  have s1: "shortest_from 1 (3602879701896397 / 36028797018963968) = (1, - 1)"
    by (subst shortest_from_step [where d = "- 1" and sc = "1 / 10" and lo = 1 and x = "Fin (3602879701896397 / 36028797018963968)" and y = "Fin (3602879701896397 / 18014398509481984)"])
      (simp_all add: d pow_int_def Number_0_1 Number_0_2)
  show ?thesis by (simp add: shortest_def s1 strip_zeros.simps)
qed

lemma decimal_of_0_1: "decimal_of (3602879701896397 / 36028797018963968) = 1 / 10"
  by (simp add: decimal_of_def sh_27 decimal_value_def pow_int_def)

lemma Number_0_3: "Number_value (3 / 10) = Fin (5404319552844595 / 18014398509481984)"
  by (rule Number_value_pos [where e = "-2" and u = "1 / 18014398509481984" and m = "5404319552844595", THEN trans])
    (simp_all add: round_half_even_def pow_int_def)

lemma sh_28: "shortest (3602879701896397 / 18014398509481984) = (2, - 1)"
proof -
  have d: "decade (3602879701896397 / 18014398509481984) = - 1" by (rule decade_eqI) (simp_all add: pow_int_def)
  have s1: "shortest_from 1 (3602879701896397 / 18014398509481984) = (2, - 1)"
    by (subst shortest_from_step [where d = "- 1" and sc = "1 / 10" and lo = 2 and x = "Fin (3602879701896397 / 18014398509481984)" and y = "Fin (5404319552844595 / 18014398509481984)"])
      (simp_all add: d pow_int_def Number_0_2 Number_0_3)
  show ?thesis by (simp add: shortest_def s1 strip_zeros.simps)
qed

lemma decimal_of_0_2: "decimal_of (3602879701896397 / 18014398509481984) = 1 / 5"
  by (simp add: decimal_of_def sh_28 decimal_value_def pow_int_def)

lemma sh_29: "shortest (5404319552844595 / 18014398509481984) = (3, - 1)"
proof -
  have d: "decade (5404319552844595 / 18014398509481984) = - 1" by (rule decade_eqI) (simp_all add: pow_int_def)
  have s1: "shortest_from 1 (5404319552844595 / 18014398509481984) = (3, - 1)"
    by (subst shortest_from_step [where d = "- 1" and sc = "1 / 10" and lo = 2 and x = "Fin (3602879701896397 / 18014398509481984)" and y = "Fin (5404319552844595 / 18014398509481984)"])
      (simp_all add: d pow_int_def Number_0_2 Number_0_3)
  show ?thesis by (simp add: shortest_def s1 strip_zeros.simps)
qed

lemma decimal_of_0_3: "decimal_of (5404319552844595 / 18014398509481984) = 3 / 10"
  by (simp add: decimal_of_def sh_29 decimal_value_def pow_int_def)

lemma Number_0_02: "Number_value (1 / 50) = Fin (5764607523034235 / 288230376151711744)"
  by (rule Number_value_pos [where e = "-6" and u = "1 / 288230376151711744" and m = "5764607523034235", THEN trans])
    (simp_all add: round_half_even_def pow_int_def)

lemma nv_161: "Number_value (3 / 100) = Fin (1080863910568919 / 36028797018963968)"
  by (rule Number_value_pos [where e = "-6" and u = "1 / 288230376151711744" and m = "8646911284551352", THEN trans])
    (simp_all add: round_half_even_def pow_int_def)

lemma sh_30: "shortest (5764607523034235 / 288230376151711744) = (2, - 2)"
proof -
  have d: "decade (5764607523034235 / 288230376151711744) = - 2" by (rule decade_eqI) (simp_all add: pow_int_def)
  have s1: "shortest_from 1 (5764607523034235 / 288230376151711744) = (2, - 2)"
    by (subst shortest_from_step [where d = "- 2" and sc = "1 / 100" and lo = 2 and x = "Fin (5764607523034235 / 288230376151711744)" and y = "Fin (1080863910568919 / 36028797018963968)"])
      (simp_all add: d pow_int_def Number_0_02 nv_161)
  show ?thesis by (simp add: shortest_def s1 strip_zeros.simps)
qed

lemma decimal_of_0_02: "decimal_of (5764607523034235 / 288230376151711744) = 1 / 50"
  by (simp add: decimal_of_def sh_30 decimal_value_def pow_int_def)

lemma Number_1_5: "Number_value (3 / 2) = Fin (3 / 2)"
  by (rule Number_value_pos [where e = "0" and u = "1 / 4503599627370496" and m = "6755399441055744", THEN trans])
    (simp_all add: round_half_even_def pow_int_def)

lemma nv_162: "Number_value (8 / 5) = Fin (3602879701896397 / 2251799813685248)"
  by (rule Number_value_pos [where e = "0" and u = "1 / 4503599627370496" and m = "7205759403792794", THEN trans])
    (simp_all add: round_half_even_def pow_int_def)

lemma sh_31: "shortest (3 / 2) = (15, - 1)"
proof -
  have d: "decade (3 / 2) = 0" by (rule decade_eqI) (simp_all add: pow_int_def)
  have s1: "shortest_from 1 (3 / 2) = shortest_from 2 (3 / 2)"
    by (subst shortest_from_step [where d = "0" and sc = "1" and lo = 1 and x = "Fin 1" and y = "Fin 2"])
      (simp_all add: d pow_int_def Number_1 Number_2)
  have s2: "shortest_from 2 (3 / 2) = (15, - 1)"
    by (subst shortest_from_step [where d = "0" and sc = "1 / 10" and lo = 15 and x = "Fin (3 / 2)" and y = "Fin (3602879701896397 / 2251799813685248)"])
      (simp_all add: d pow_int_def Number_1_5 nv_162)
  show ?thesis by (simp add: shortest_def s1 s2 strip_zeros.simps)
qed

lemma decimal_of_1_5: "decimal_of (3 / 2) = 3 / 2"
  by (simp add: decimal_of_def sh_31 decimal_value_def pow_int_def)

lemma Number_32_32: "Number_value (808 / 25) = Fin (4548635623644201 / 140737488355328)"
  by (rule Number_value_pos [where e = "5" and u = "1 / 140737488355328" and m = "4548635623644201", THEN trans])
    (simp_all add: round_half_even_def pow_int_def)

lemma nv_163: "Number_value 30 = Fin 30"
  by (rule Number_value_pos [where e = "4" and u = "1 / 281474976710656" and m = "8444249301319680", THEN trans])
    (simp_all add: round_half_even_def pow_int_def)

lemma nv_164: "Number_value 40 = Fin 40"
  by (rule Number_value_pos [where e = "5" and u = "1 / 140737488355328" and m = "5629499534213120", THEN trans])
    (simp_all add: round_half_even_def pow_int_def)

lemma nv_165: "Number_value 32 = Fin 32"
  by (rule Number_value_pos [where e = "5" and u = "1 / 140737488355328" and m = "4503599627370496", THEN trans])
    (simp_all add: round_half_even_def pow_int_def)

lemma nv_166: "Number_value 33 = Fin 33"
  by (rule Number_value_pos [where e = "5" and u = "1 / 140737488355328" and m = "4644337115725824", THEN trans])
    (simp_all add: round_half_even_def pow_int_def)

lemma nv_167: "Number_value (323 / 10) = Fin (2272910436938547 / 70368744177664)"
  by (rule Number_value_pos [where e = "5" and u = "1 / 140737488355328" and m = "4545820873877094", THEN trans])
    (simp_all add: round_half_even_def pow_int_def)

lemma nv_168: "Number_value (162 / 5) = Fin (4559894622712627 / 140737488355328)"
  by (rule Number_value_pos [where e = "5" and u = "1 / 140737488355328" and m = "4559894622712627", THEN trans])
    (simp_all add: round_half_even_def pow_int_def)

lemma nv_169: "Number_value (3233 / 100) = Fin (2275021499263877 / 70368744177664)"
  by (rule Number_value_pos [where e = "5" and u = "1 / 140737488355328" and m = "4550042998527754", THEN trans])
    (simp_all add: round_half_even_def pow_int_def)

lemma sh_32: "shortest (4548635623644201 / 140737488355328) = (3232, - 2)"
proof -
  have d: "decade (4548635623644201 / 140737488355328) = 1" by (rule decade_eqI) (simp_all add: pow_int_def)
  have s1: "shortest_from 1 (4548635623644201 / 140737488355328) = shortest_from 2 (4548635623644201 / 140737488355328)"
    by (subst shortest_from_step [where d = "1" and sc = "10" and lo = 3 and x = "Fin 30" and y = "Fin 40"])
      (simp_all add: d pow_int_def nv_163 nv_164)
  have s2: "shortest_from 2 (4548635623644201 / 140737488355328) = shortest_from 3 (4548635623644201 / 140737488355328)"
    by (subst shortest_from_step [where d = "1" and sc = "1" and lo = 32 and x = "Fin 32" and y = "Fin 33"])
      (simp_all add: d pow_int_def nv_165 nv_166)
  have s3: "shortest_from 3 (4548635623644201 / 140737488355328) = shortest_from 4 (4548635623644201 / 140737488355328)"
    by (subst shortest_from_step [where d = "1" and sc = "1 / 10" and lo = 323 and x = "Fin (2272910436938547 / 70368744177664)" and y = "Fin (4559894622712627 / 140737488355328)"])
      (simp_all add: d pow_int_def nv_167 nv_168)
  have s4: "shortest_from 4 (4548635623644201 / 140737488355328) = (3232, - 2)"
    by (subst shortest_from_step [where d = "1" and sc = "1 / 100" and lo = 3232 and x = "Fin (4548635623644201 / 140737488355328)" and y = "Fin (2275021499263877 / 70368744177664)"])
      (simp_all add: d pow_int_def Number_32_32 nv_169)
  show ?thesis by (simp add: shortest_def s1 s2 s3 s4 strip_zeros.simps)
qed

lemma decimal_of_32_32: "decimal_of (4548635623644201 / 140737488355328) = 808 / 25"
  by (simp add: decimal_of_def sh_32 decimal_value_def pow_int_def)

lemma Number_3_232: "Number_value (404 / 125) = Fin (3638908498915361 / 1125899906842624)"
  by (rule Number_value_pos [where e = "1" and u = "1 / 2251799813685248" and m = "7277816997830722", THEN trans])
    (simp_all add: round_half_even_def pow_int_def)

lemma nv_170: "Number_value 3 = Fin 3"
  by (rule Number_value_pos [where e = "1" and u = "1 / 2251799813685248" and m = "6755399441055744", THEN trans])
    (simp_all add: round_half_even_def pow_int_def)

lemma nv_171: "Number_value 4 = Fin 4"
  by (rule Number_value_pos [where e = "2" and u = "1 / 1125899906842624" and m = "4503599627370496", THEN trans])
    (simp_all add: round_half_even_def pow_int_def)

lemma nv_172: "Number_value (16 / 5) = Fin (3602879701896397 / 1125899906842624)"
  by (rule Number_value_pos [where e = "1" and u = "1 / 2251799813685248" and m = "7205759403792794", THEN trans])
    (simp_all add: round_half_even_def pow_int_def)

lemma nv_173: "Number_value (33 / 10) = Fin (3715469692580659 / 1125899906842624)"
  by (rule Number_value_pos [where e = "1" and u = "1 / 2251799813685248" and m = "7430939385161318", THEN trans])
    (simp_all add: round_half_even_def pow_int_def)

lemma nv_174: "Number_value (323 / 100) = Fin (7273313398203351 / 2251799813685248)"
  by (rule Number_value_pos [where e = "1" and u = "1 / 2251799813685248" and m = "7273313398203351", THEN trans])
    (simp_all add: round_half_even_def pow_int_def)

lemma nv_175: "Number_value (81 / 25) = Fin (1823957849085051 / 562949953421312)"
  by (rule Number_value_pos [where e = "1" and u = "1 / 2251799813685248" and m = "7295831396340204", THEN trans])
    (simp_all add: round_half_even_def pow_int_def)

lemma nv_176: "Number_value (3233 / 1000) = Fin (7280068797644407 / 2251799813685248)"
  by (rule Number_value_pos [where e = "1" and u = "1 / 2251799813685248" and m = "7280068797644407", THEN trans])
    (simp_all add: round_half_even_def pow_int_def)

lemma sh_33: "shortest (3638908498915361 / 1125899906842624) = (3232, - 3)"
proof -
  have d: "decade (3638908498915361 / 1125899906842624) = 0" by (rule decade_eqI) (simp_all add: pow_int_def)
  have s1: "shortest_from 1 (3638908498915361 / 1125899906842624) = shortest_from 2 (3638908498915361 / 1125899906842624)"
    by (subst shortest_from_step [where d = "0" and sc = "1" and lo = 3 and x = "Fin 3" and y = "Fin 4"])
      (simp_all add: d pow_int_def nv_170 nv_171)
  have s2: "shortest_from 2 (3638908498915361 / 1125899906842624) = shortest_from 3 (3638908498915361 / 1125899906842624)"
    by (subst shortest_from_step [where d = "0" and sc = "1 / 10" and lo = 32 and x = "Fin (3602879701896397 / 1125899906842624)" and y = "Fin (3715469692580659 / 1125899906842624)"])
      (simp_all add: d pow_int_def nv_172 nv_173)
  have s3: "shortest_from 3 (3638908498915361 / 1125899906842624) = shortest_from 4 (3638908498915361 / 1125899906842624)"
    by (subst shortest_from_step [where d = "0" and sc = "1 / 100" and lo = 323 and x = "Fin (7273313398203351 / 2251799813685248)" and y = "Fin (1823957849085051 / 562949953421312)"])
      (simp_all add: d pow_int_def nv_174 nv_175)
  have s4: "shortest_from 4 (3638908498915361 / 1125899906842624) = (3232, - 3)"
    by (subst shortest_from_step [where d = "0" and sc = "1 / 1000" and lo = 3232 and x = "Fin (3638908498915361 / 1125899906842624)" and y = "Fin (7280068797644407 / 2251799813685248)"])
      (simp_all add: d pow_int_def Number_3_232 nv_176)
  show ?thesis by (simp add: shortest_def s1 s2 s3 s4 strip_zeros.simps)
qed

lemma decimal_of_3_232: "decimal_of (3638908498915361 / 1125899906842624) = 404 / 125"
  by (simp add: decimal_of_def sh_33 decimal_value_def pow_int_def)

lemma nv_177: "Number_value 20 = Fin 20"
  by (rule Number_value_pos [where e = "4" and u = "1 / 281474976710656" and m = "5629499534213120", THEN trans])
    (simp_all add: round_half_even_def pow_int_def)

lemma sh_34: "shortest 10 = (1, 1)"
proof -
  have d: "decade 10 = 1" by (rule decade_eqI) (simp_all add: pow_int_def)
  have s1: "shortest_from 1 10 = (1, 1)"
    by (subst shortest_from_step [where d = "1" and sc = "10" and lo = 1 and x = "Fin 10" and y = "Fin 20"])
      (simp_all add: d pow_int_def nv_3 nv_177)
  show ?thesis by (simp add: shortest_def s1 strip_zeros.simps)
qed

lemma decimal_of_10: "decimal_of 10 = 10"
  by (simp add: decimal_of_def sh_34 decimal_value_def pow_int_def)

lemma decimal_of_1: "decimal_of 1 = 1"
  by (simp add: decimal_of_def sh_1 decimal_value_def pow_int_def)

lemma Number_0_88: "Number_value (22 / 25) = Fin (7926335344172073 / 9007199254740992)"
  by (rule Number_value_pos [where e = "-1" and u = "1 / 9007199254740992" and m = "7926335344172073", THEN trans])
    (simp_all add: round_half_even_def pow_int_def)

lemma nv_178: "Number_value (4 / 5) = Fin (3602879701896397 / 4503599627370496)"
  by (rule Number_value_pos [where e = "-1" and u = "1 / 9007199254740992" and m = "7205759403792794", THEN trans])
    (simp_all add: round_half_even_def pow_int_def)

lemma nv_179: "Number_value (9 / 10) = Fin (8106479329266893 / 9007199254740992)"
  by (rule Number_value_pos [where e = "-1" and u = "1 / 9007199254740992" and m = "8106479329266893", THEN trans])
    (simp_all add: round_half_even_def pow_int_def)

lemma nv_180: "Number_value (89 / 100) = Fin (8016407336719483 / 9007199254740992)"
  by (rule Number_value_pos [where e = "-1" and u = "1 / 9007199254740992" and m = "8016407336719483", THEN trans])
    (simp_all add: round_half_even_def pow_int_def)

lemma sh_35: "shortest (7926335344172073 / 9007199254740992) = (88, - 2)"
proof -
  have d: "decade (7926335344172073 / 9007199254740992) = - 1" by (rule decade_eqI) (simp_all add: pow_int_def)
  have s1: "shortest_from 1 (7926335344172073 / 9007199254740992) = shortest_from 2 (7926335344172073 / 9007199254740992)"
    by (subst shortest_from_step [where d = "- 1" and sc = "1 / 10" and lo = 8 and x = "Fin (3602879701896397 / 4503599627370496)" and y = "Fin (8106479329266893 / 9007199254740992)"])
      (simp_all add: d pow_int_def nv_178 nv_179)
  have s2: "shortest_from 2 (7926335344172073 / 9007199254740992) = (88, - 2)"
    by (subst shortest_from_step [where d = "- 1" and sc = "1 / 100" and lo = 88 and x = "Fin (7926335344172073 / 9007199254740992)" and y = "Fin (8016407336719483 / 9007199254740992)"])
      (simp_all add: d pow_int_def Number_0_88 nv_180)
  show ?thesis by (simp add: shortest_def s1 s2 strip_zeros.simps)
qed

lemma decimal_of_0_88: "decimal_of (7926335344172073 / 9007199254740992) = 22 / 25"
  by (simp add: decimal_of_def sh_35 decimal_value_def pow_int_def)

lemma nv_181: "Number_value (10808639105689191 / 36028797018963968) = Fin (1351079888211149 / 4503599627370496)"
  by (rule Number_value_pos [where e = "-2" and u = "1 / 18014398509481984" and m = "5404319552844596", THEN trans])
    (simp_all add: round_half_even_def pow_int_def)

lemma native_sum: "fadd (Fin (3602879701896397 / 36028797018963968)) (Fin (3602879701896397 / 18014398509481984)) = Fin (1351079888211149 / 4503599627370496)"
  by (simp add: fadd_def nv_181)

lemma nv_182: "Number_value (12980742146337070512478121581609 / 649037107316853453566312041152512) = Fin (1441151880758559 / 72057594037927936)"
  by (rule Number_value_pos [where e = "-6" and u = "1 / 288230376151711744" and m = "5764607523034236", THEN trans])
    (simp_all add: round_half_even_def pow_int_def)

lemma native_product: "fmul (Fin (3602879701896397 / 36028797018963968)) (Fin (3602879701896397 / 18014398509481984)) = Fin (1441151880758559 / 72057594037927936)"
  by (simp add: fmul_def nv_182)

lemma nv_183: "Number_value (5404319552844595 / 3602879701896397) = Fin (6755399441055743 / 4503599627370496)"
  by (rule Number_value_pos [where e = "0" and u = "1 / 4503599627370496" and m = "6755399441055743", THEN trans])
    (simp_all add: round_half_even_def pow_int_def)

lemma native_quotient: "fdiv (Fin (5404319552844595 / 18014398509481984)) (Fin (3602879701896397 / 18014398509481984)) = Fin (6755399441055743 / 4503599627370496)"
  by (simp add: fdiv_def nv_183)

section \<open>Properties\<close>

subsection \<open>Helper facts about the guard and the constructor\<close>

lemma validate_not_money: "validateCompatibility this (Val v) = Inl TypeError"
  by (cases v)
    (simp_all add: validateCompatibility_def operand_currency_def truthy_def
      throw_currencyMissmatch_def currencyMissmatch_def call_toString_def)

lemma validate_same:
  "code (currency a) = code (currency b) \<Longrightarrow> validateCompatibility a (Inst b) = Inr True"
  by (simp add: validateCompatibility_def operand_currency_def truthy_def isIn_def
      check_Currency_def Currency_equals_def)

lemma validate_differ:
  "code (currency a) \<noteq> code (currency b) \<Longrightarrow>
   validateCompatibility a (Inst b) =
     Inl (Error (''Currency passed '' @ [CHR 0x27] @ code (currency b) @ [CHR 0x27]
        @ '' does not match required'' @ [CHR 0x0A] @ ''    '' @ [CHR 0x27]
        @ code (currency a) @ [CHR 0x27]))"
  by (simp add: validateCompatibility_def operand_currency_def truthy_def isIn_def
      check_Currency_def Currency_equals_def throw_currencyMissmatch_def
      currencyMissmatch_def call_toString_def to_string_def Currency_toString_def)

lemma new_Money_eq: "new_Money x c = Inr (make_Money x c)"
  by (simp add: new_Money_def Constructor_def data_amount_def check_Number_def
      data_currency_def)

lemma amount_make_Money [simp]: "amount (make_Money x c) = x"
  by (simp add: make_Money_def Let_def)

lemma currency_make_Money [simp]: "currency (make_Money x c) = c"
  by (simp add: make_Money_def Let_def)

lemma bn_arith_Num: "\<exists>r. bn_arith f x (Num y) = Inr r"
  by (cases x; cases y) (simp_all add: bn_arith_def new_BigNumber_def split: BigNumber.splits)

lemma bn_divide_Num: "\<exists>r. bn_divide x (Num y) = Inr r"
  using bn_arith_Num [of "\<lambda>p q. p / q" x y]
  by (cases y) (auto simp: bn_divide_def new_BigNumber_def)

lemma bn_compare_Num: "\<exists>r. bn_compare f x (Num y) = Inr r"
  by (cases x; cases y) (auto simp: bn_compare_def new_BigNumber_def split: BigNumber.splits)

lemma arith_with_not_money: "arith_with f this (Val v) = Inl TypeError"
  by (simp add: arith_with_def validate_not_money)

lemma compare_with_not_money: "compare_with r this (Val v) = Inl TypeError"
  by (simp add: compare_with_def validate_not_money)

lemma arith_with_differ:
  "validateCompatibility a other = Inl e \<Longrightarrow> arith_with f a other = Inl e"
  by (simp add: arith_with_def)

lemma compare_with_differ:
  "validateCompatibility a other = Inl e \<Longrightarrow> compare_with r a other = Inl e"
  by (simp add: compare_with_def)

lemma arith_with_same:
  assumes "validateCompatibility a (Inst b) = Inr True"
    and "\<And>x y. \<exists>r. f x (Num y) = Inr r"
  shows "\<exists>m. arith_with f a (Inst b) = Inr m"
proof -
  obtain r where "f (amount a) (Num (amount b)) = Inr r" using assms(2) by blast
  then show ?thesis using assms(1)
    by (simp add: arith_with_def operand_amount_def new_Money_eq)
qed

lemma compare_with_same:
  "validateCompatibility a (Inst b) = Inr True \<Longrightarrow> \<exists>r. compare_with f a (Inst b) = Inr r"
  using bn_compare_Num [of f "amount a" "amount b"]
  by (auto simp: compare_with_def operand_amount_def)

lemma data_currency_not_amount_error: "data_currency v \<noteq> Inl (Match_Error Number_pattern)"
  by (cases v) (auto simp: data_currency_def new_Currency_def truthy_def DEFAULT_CURRENCY_def)

lemma data_currency_default: "\<not> truthy v \<Longrightarrow> data_currency v = Inr \<lparr>code = ''EUR''\<rparr>"
  by (cases v) (auto simp: data_currency_def new_Currency_def truthy_def DEFAULT_CURRENCY_def)

lemma data_currency_obj [simp]: "data_currency (CurrencyObj c) = Inr c"
  by (simp add: data_currency_def)

lemma data_currency_default_string [simp]:
  "data_currency (Str DEFAULT_CURRENCY) = Inr \<lparr>code = ''EUR''\<rparr>"
  by (simp add: data_currency_def new_Currency_def truthy_def DEFAULT_CURRENCY_def)

lemma Constructor_amount:
  "data_amount args = Inr (a, cv) \<Longrightarrow> data_currency cv = Inr c \<Longrightarrow>
   Constructor args = Inr (make_Money a c)"
  by (simp add: Constructor_def)

lemma Constructor_amount_error:
  "Constructor args = Inl (Match_Error Number_pattern) \<longleftrightarrow>
   data_amount args = Inl (Match_Error Number_pattern)"
  using data_currency_not_amount_error
  by (auto simp: Constructor_def split: sum.splits)

lemma data_amount_record_base:
  "d_base d \<noteq> Undefined \<Longrightarrow> d_decimals d = Some k \<Longrightarrow>
   data_amount (Record d) = Inr (fdiv (parseInt (to_string (d_base d))) (Math_pow10 k), d_currency d)"
  by (simp add: data_amount_def)

lemma check_Number_error: "check_Number v = Inl e \<longleftrightarrow> e = Match_Error Number_pattern \<and> (\<forall>x. v \<noteq> Num x)"
  by (cases v) (auto simp: check_Number_def)

lemma decimals_make_Money: "decimals (make_Money a c) = decimalPlaces a"
  by (simp add: make_Money_def Let_def)

lemma base_make_Money:
  "base (make_Money a c) = ToString (Math_floor (fmul a (Math_pow10 (decimalPlaces a))))"
  by (simp add: make_Money_def Let_def)

lemma arith_with_result:
  assumes "validateCompatibility a (Inst b) = Inr True"
    and "f (amount a) (Num (amount b)) = Inr r"
  shows "arith_with f a (Inst b) = Inr (make_Money (toNumber r) (currency a))"
  using assms by (simp add: arith_with_def operand_amount_def new_Money_eq)

lemma bn_arith_finite:
  "bn_arith f (Fin p) (Num (Fin q)) = Inr (Big (f (decimal_of p) (decimal_of q)))"
  by (simp add: bn_arith_def new_BigNumber_def)

lemma bn_divide_finite:
  "decimal_of q \<noteq> 0 \<Longrightarrow>
   bn_divide (Fin p) (Num (Fin q)) = Inr (Big (decimal_of p / decimal_of q))"
  by (simp add: bn_divide_def bn_arith_finite new_BigNumber_def)

lemma compare_with_finite:
  assumes "validateCompatibility a (Inst b) = Inr True" "amount a = Fin p" "amount b = Fin q"
  shows "compare_with r a (Inst b) = Inr (r (decimal_of p) (decimal_of q))"
  using assms
  by (simp add: compare_with_def operand_amount_def bn_compare_def new_BigNumber_def)






subsection \<open>The claims\<close>

text \<open>
  C10: every Money defines \<^verbatim>\<open>valueOf()\<close> returning its amount, so that in native
  arithmetic a Money coerces to its amount: for every Money \<open>m\<close> and number \<open>n\<close>,
  \<^verbatim>\<open>m + n\<close> equals \<^verbatim>\<open>m.amount + n\<close>.
\<close>

theorem valueOf_coercion:
  "valueOf m = amount m \<and>
   js_plus (Money_addend m) (Number_addend n) = js_plus (Number_addend (amount m)) (Number_addend n)"
  by (simp add: valueOf_def js_plus_def ToPrimitive_def)

text \<open>
  C3: for two Money values whose currencies differ by value, every binary operation
  (add, subtract, multiply, divide, delta and the five comparisons) raises the
  currency-mismatch error, whose message embeds the codes of both currencies; when the
  currencies are equal by value every one of them returns a result instead.
\<close>

theorem currency_mismatch_guard:
  "(code (currency a) \<noteq> code (currency b) \<longrightarrow>
      (\<exists>msg. msg = ''Currency passed '' @ [CHR 0x27] @ code (currency b) @ [CHR 0x27]
            @ '' does not match required'' @ [CHR 0x0A] @ ''    '' @ [CHR 0x27]
            @ code (currency a) @ [CHR 0x27]
        \<and> add a (Inst b) = Inl (Error msg)
        \<and> subtract a (Inst b) = Inl (Error msg)
        \<and> multiply a (Inst b) = Inl (Error msg)
        \<and> divide a (Inst b) = Inl (Error msg)
        \<and> delta a (Inst b) = Inl (Error msg)
        \<and> isEqual a (Inst b) = Inl (Error msg)
        \<and> isGreaterThan a (Inst b) = Inl (Error msg)
        \<and> isGreaterThanOrEqualTo a (Inst b) = Inl (Error msg)
        \<and> isLessThan a (Inst b) = Inl (Error msg)
        \<and> isLessThanOrEqualTo a (Inst b) = Inl (Error msg)))
   \<and> (code (currency a) = code (currency b) \<longrightarrow>
        (\<exists>r. add a (Inst b) = Inr r)
      \<and> (\<exists>r. subtract a (Inst b) = Inr r)
      \<and> (\<exists>r. multiply a (Inst b) = Inr r)
      \<and> (\<exists>r. divide a (Inst b) = Inr r)
      \<and> (\<exists>r. delta a (Inst b) = Inr r)
      \<and> (\<exists>r. isEqual a (Inst b) = Inr r)
      \<and> (\<exists>r. isGreaterThan a (Inst b) = Inr r)
      \<and> (\<exists>r. isGreaterThanOrEqualTo a (Inst b) = Inr r)
      \<and> (\<exists>r. isLessThan a (Inst b) = Inr r)
      \<and> (\<exists>r. isLessThanOrEqualTo a (Inst b) = Inr r))"
proof (intro conjI impI)
  assume differ: "code (currency a) \<noteq> code (currency b)"
  note v = validate_differ [OF differ]
  show "\<exists>msg. msg = ''Currency passed '' @ [CHR 0x27] @ code (currency b) @ [CHR 0x27]
            @ '' does not match required'' @ [CHR 0x0A] @ ''    '' @ [CHR 0x27]
            @ code (currency a) @ [CHR 0x27]
        \<and> add a (Inst b) = Inl (Error msg)
        \<and> subtract a (Inst b) = Inl (Error msg)
        \<and> multiply a (Inst b) = Inl (Error msg)
        \<and> divide a (Inst b) = Inl (Error msg)
        \<and> delta a (Inst b) = Inl (Error msg)
        \<and> isEqual a (Inst b) = Inl (Error msg)
        \<and> isGreaterThan a (Inst b) = Inl (Error msg)
        \<and> isGreaterThanOrEqualTo a (Inst b) = Inl (Error msg)
        \<and> isLessThan a (Inst b) = Inl (Error msg)
        \<and> isLessThanOrEqualTo a (Inst b) = Inl (Error msg)"
    by (intro exI conjI refl)
      (simp_all only: add_def subtract_def multiply_def divide_def isEqual_def
        isGreaterThan_def isGreaterThanOrEqualTo_def isLessThan_def isLessThanOrEqualTo_def
        arith_with_differ [OF v] compare_with_differ [OF v],
       simp add: delta_def v)
next
  assume same: "code (currency a) = code (currency b)"
  note v = validate_same [OF same]
  show "\<exists>r. add a (Inst b) = Inr r"
    unfolding add_def bn_add_def by (rule arith_with_same [OF v]) (rule bn_arith_Num)
  show "\<exists>r. subtract a (Inst b) = Inr r"
    unfolding subtract_def bn_subtract_def by (rule arith_with_same [OF v]) (rule bn_arith_Num)
  show "\<exists>r. multiply a (Inst b) = Inr r"
    unfolding multiply_def bn_multiply_def by (rule arith_with_same [OF v]) (rule bn_arith_Num)
  show "\<exists>r. divide a (Inst b) = Inr r"
    unfolding divide_def by (rule arith_with_same [OF v]) (rule bn_divide_Num)
  show "\<exists>r. delta a (Inst b) = Inr r"
    using bn_arith_Num [of "\<lambda>p q. p - q" "amount a" "amount b"]
    by (auto simp: delta_def v operand_amount_def bn_subtract_def)
  show "\<exists>r. isEqual a (Inst b) = Inr r"
    unfolding isEqual_def by (rule compare_with_same [OF v])
  show "\<exists>r. isGreaterThan a (Inst b) = Inr r"
    unfolding isGreaterThan_def by (rule compare_with_same [OF v])
  show "\<exists>r. isGreaterThanOrEqualTo a (Inst b) = Inr r"
    unfolding isGreaterThanOrEqualTo_def by (rule compare_with_same [OF v])
  show "\<exists>r. isLessThan a (Inst b) = Inr r"
    unfolding isLessThan_def by (rule compare_with_same [OF v])
  show "\<exists>r. isLessThanOrEqualTo a (Inst b) = Inr r"
    unfolding isLessThanOrEqualTo_def by (rule compare_with_same [OF v])
qed

theorem currency_mismatch_guard_witness:
  "''USD'' \<noteq> ''EUR''
   \<and> isEqual \<lparr>amount = Fin 1, base = ''1'', decimals = 0, currency = \<lparr>code = ''USD''\<rparr>\<rparr>
        (Inst \<lparr>amount = Fin 1, base = ''1'', decimals = 0, currency = \<lparr>code = ''EUR''\<rparr>\<rparr>)
      = Inl (Error (''Currency passed '' @ [CHR 0x27] @ ''EUR'' @ [CHR 0x27]
          @ '' does not match required'' @ [CHR 0x0A] @ ''    '' @ [CHR 0x27] @ ''USD''
          @ [CHR 0x27]))
   \<and> (\<exists>r. add \<lparr>amount = Fin 1, base = ''1'', decimals = 0, currency = \<lparr>code = ''USD''\<rparr>\<rparr>
        (Inst \<lparr>amount = Fin 2, base = ''2'', decimals = 0, currency = \<lparr>code = ''USD''\<rparr>\<rparr>)
      = Inr r)"
  using
    currency_mismatch_guard [of
      "\<lparr>amount = Fin 1, base = ''1'', decimals = 0, currency = \<lparr>code = ''USD''\<rparr>\<rparr>"
      "\<lparr>amount = Fin 1, base = ''1'', decimals = 0, currency = \<lparr>code = ''EUR''\<rparr>\<rparr>"]
    currency_mismatch_guard [of
      "\<lparr>amount = Fin 1, base = ''1'', decimals = 0, currency = \<lparr>code = ''USD''\<rparr>\<rparr>"
      "\<lparr>amount = Fin 2, base = ''2'', decimals = 0, currency = \<lparr>code = ''USD''\<rparr>\<rparr>"]
  by simp

text \<open>
  C8: when the argument of a binary operation is not a Money (a number, a string, a
  currency, a plain object, \<^verbatim>\<open>undefined\<close> or \<^verbatim>\<open>null\<close>: values without a
  \<open>currency\<close> field), the
  operation raises an error, and the error is of another kind than the
  currency-mismatch error: it is the host's \<^verbatim>\<open>TypeError\<close>, never an \<^verbatim>\<open>Error\<close> with a
  message.
\<close>

theorem invalid_operand_raises:
  "add this (Val v) = Inl TypeError
   \<and> subtract this (Val v) = Inl TypeError
   \<and> multiply this (Val v) = Inl TypeError
   \<and> divide this (Val v) = Inl TypeError
   \<and> delta this (Val v) = Inl TypeError
   \<and> isEqual this (Val v) = Inl TypeError
   \<and> isGreaterThan this (Val v) = Inl TypeError
   \<and> isGreaterThanOrEqualTo this (Val v) = Inl TypeError
   \<and> isLessThan this (Val v) = Inl TypeError
   \<and> isLessThanOrEqualTo this (Val v) = Inl TypeError
   \<and> (\<forall>msg. TypeError \<noteq> Error msg)"
  by (simp add: add_def subtract_def multiply_def divide_def delta_def isEqual_def
      isGreaterThan_def isGreaterThanOrEqualTo_def isLessThan_def isLessThanOrEqualTo_def
      arith_with_not_money compare_with_not_money validate_not_money)

text \<open>
  C6, as the code has it: when a Money is constructed from a record with base and
  decimals, the amount is \<^verbatim>\<open>parseInt(base, 10) / Math.pow(10, decimals)\<close>; the instance's
  decimals and base are then derived anew from that amount, as on every other path, and
  the caller's decimals is not stored.
\<close>

theorem record_rederives_decimals:
  assumes "d_base d \<noteq> Undefined" and "d_decimals d = Some k"
    and "data_currency (d_currency d) = Inr c"
  shows "\<exists>m. Constructor (Record d) = Inr m
    \<and> amount m = fdiv (parseInt (to_string (d_base d))) (Math_pow10 k)
    \<and> decimals m = decimalPlaces (amount m)
    \<and> base m = ToString (Math_floor (fmul (amount m) (Math_pow10 (decimals m))))
    \<and> currency m = c"
  using Constructor_amount [OF data_amount_record_base [OF assms(1,2)] assms(3)]
  by (simp add: decimals_make_Money base_make_Money)

theorem record_rederives_decimals_witness:
  "\<exists>m. Constructor (Record \<lparr>d_amount = Undefined, d_base = Str ''55'', d_decimals = Some 1,
          d_currency = CurrencyObj \<lparr>code = ''USD''\<rparr>\<rparr>) = Inr m
    \<and> amount m = Fin (11 / 2)
    \<and> decimals m = decimalPlaces (amount m)
    \<and> base m = ToString (Math_floor (fmul (amount m) (Math_pow10 (decimals m))))
    \<and> currency m = \<lparr>code = ''USD''\<rparr>"
  using record_rederives_decimals [of
      "\<lparr>d_amount = Undefined, d_base = Str ''55'', d_decimals = Some 1,
        d_currency = CurrencyObj \<lparr>code = ''USD''\<rparr>\<rparr>" 1 "\<lparr>code = ''USD''\<rparr>"]
  by (simp add: to_string_def parseInt_55 Math_pow10_1 fdiv_55_10)

text \<open>
  C6, as the claim words it, fails: the record with base \<^verbatim>\<open>'100'\<close> and decimals 2 gives
  an instance with decimals 0 and base \<^verbatim>\<open>'1'\<close>.
\<close>

theorem record_decimals_not_stored:
  "Constructor (Record \<lparr>d_amount = Undefined, d_base = Str ''100'', d_decimals = Some 2,
      d_currency = Undefined\<rparr>)
   = Inr \<lparr>amount = Fin 1, base = ''1'', decimals = 0, currency = \<lparr>code = ''EUR''\<rparr>\<rparr>"
  using Constructor_amount [OF data_amount_record_base, of
      "\<lparr>d_amount = Undefined, d_base = Str ''100'', d_decimals = Some 2, d_currency = Undefined\<rparr>"
      2 "\<lparr>code = ''EUR''\<rparr>"]
  by (simp add: data_currency_default truthy_def to_string_def parseInt_100 Math_pow10_2 fdiv_100_100
      make_Money_1)

text \<open>
  C4, as the code has it: construction raises the error of \<^verbatim>\<open>check(amount, Number)\<close>
  exactly when the amount it checks is not of type number: a positional amount that is
  missing or is not a number (for \<^verbatim>\<open>null\<close> alone the property read fails first), or
  the amount of a record that lacks base or decimals. Every number passes, \<^verbatim>\<open>NaN\<close> and the
  infinities included, and a record with base and decimals is not checked. \<^verbatim>\<open>percentage\<close>
  checks nothing itself: its argument goes to \<^verbatim>\<open>BigNumber\<close>, which rejects what is not a
  number.
\<close>

theorem amount_check_exactly:
  "Constructor (Positional []) = Inl (Match_Error Number_pattern)
   \<and> (Constructor (Positional [v]) = Inl (Match_Error Number_pattern)
        \<longleftrightarrow> (\<forall>x. v \<noteq> Num x) \<and> v \<noteq> Null)
   \<and> (Constructor (Positional (v # c # rest)) = Inl (Match_Error Number_pattern)
        \<longleftrightarrow> (\<forall>x. v \<noteq> Num x))
   \<and> (Constructor (Record d) = Inl (Match_Error Number_pattern)
        \<longleftrightarrow> (d_base d = Undefined \<or> d_decimals d = None) \<and> (\<forall>x. d_amount d \<noteq> Num x))
   \<and> (percentage m p = Inl Invalid_Amount \<longleftrightarrow> (\<forall>x. p \<noteq> Num x))"
proof (intro conjI)
  show "Constructor (Positional []) = Inl (Match_Error Number_pattern)"
    by (simp add: Constructor_amount_error data_amount_def check_Number_def)
  show "Constructor (Positional [v]) = Inl (Match_Error Number_pattern)
        \<longleftrightarrow> (\<forall>x. v \<noteq> Num x) \<and> v \<noteq> Null"
    by (cases v)
      (simp_all add: Constructor_amount_error data_amount_def check_Number_def typeof_object_def)
  show "Constructor (Positional (v # c # rest)) = Inl (Match_Error Number_pattern)
        \<longleftrightarrow> (\<forall>x. v \<noteq> Num x)"
    by (cases v) (simp_all add: Constructor_amount_error data_amount_def check_Number_def)
  show "Constructor (Record d) = Inl (Match_Error Number_pattern)
        \<longleftrightarrow> (d_base d = Undefined \<or> d_decimals d = None) \<and> (\<forall>x. d_amount d \<noteq> Num x)"
    by (cases "d_amount d"; cases "d_decimals d")
      (simp_all add: Constructor_amount_error data_amount_def check_Number_def)
  show "percentage m p = Inl Invalid_Amount \<longleftrightarrow> (\<forall>x. p \<noteq> Num x)"
  proof (cases p)
    case (Num y)
    obtain r where "bn_percentage (amount m) (Num y) = Inr r"
      using bn_arith_Num [of "\<lambda>p q. p * q / 100" "amount m" y] by (auto simp: bn_percentage_def)
    then show ?thesis using Num by (simp add: percentage_def new_Money_eq)
  qed (cases "amount m";
       simp add: percentage_def bn_percentage_def bn_arith_def new_BigNumber_def)+
qed

text \<open>
  C4, as the claim words it, fails: constructing with \<^verbatim>\<open>Infinity\<close> raises nothing and
  returns a Money.
\<close>

theorem infinite_amount_constructs:
  "Constructor (Positional [Num PosInf])
   = Inr \<lparr>amount = PosInf, base = ''Infinity'', decimals = 0, currency = \<lparr>code = ''EUR''\<rparr>\<rparr>"
  by (simp add: Constructor_def data_amount_def typeof_object_def check_Number_def
      make_Money_PosInf)




text \<open>
  C5 at the amount 1000000000000000.125: the constructor stores decimals 1 and base
  \<^verbatim>\<open>'10000000000000002'\<close>, and the Money rebuilt from that base, those decimals and the
  currency has the amount 1000000000000000.25.
\<close>

theorem roundtrip_changes_amount:
  "Constructor (Positional [Num (Fin (1000000000000000 + 1 / 8))])
     = Inr \<lparr>amount = Fin (1000000000000000 + 1 / 8), base = ''10000000000000002'',
            decimals = 1, currency = \<lparr>code = ''EUR''\<rparr>\<rparr>
   \<and> Constructor (Record \<lparr>d_amount = Undefined, d_base = Str ''10000000000000002'',
          d_decimals = Some 1, d_currency = CurrencyObj \<lparr>code = ''EUR''\<rparr>\<rparr>)
     = Inr \<lparr>amount = Fin (1000000000000000 + 1 / 4), base = ''10000000000000002'',
            decimals = 1, currency = \<lparr>code = ''EUR''\<rparr>\<rparr>"
  by (simp add: Constructor_def data_amount_def typeof_object_def check_Number_def
      to_string_def make_Money_1e15_eighth parseInt_base Math_pow10_1 fdiv_reconstruct
      make_Money_1e15_quarter)

text \<open>
  C7: for a Money \<open>m\<close>, a finite rate \<open>r\<close> and a currency \<open>c\<close>, \<^verbatim>\<open>m.convert(r, c)\<close>
  raises the same-currency error when \<open>c\<close> equals the currency of \<open>m\<close> by value; when
  \<open>c\<close> differs it returns a Money in \<open>c\<close> whose amount is the exact decimal product of
  the amount and the rate, converted to a number.
\<close>

theorem convert_rule:
  "(code c = code (currency m) \<longrightarrow>
      convert m (Num (Fin r)) (CurrencyObj c)
        = Inl (Error (''Converting to same currency '' @ [CHR 0x27] @ code (currency m)
            @ [CHR 0x27] @ '' is not allowed'')))
   \<and> (code c \<noteq> code (currency m) \<longrightarrow> amount m = Fin p \<longrightarrow>
        (\<exists>m'. convert m (Num (Fin r)) (CurrencyObj c) = Inr m'
           \<and> amount m' = Number_value (decimal_of p * decimal_of r)
           \<and> currency m' = c))"
  by (auto simp: convert_def check_Number_def check_Currency_def isIn_def Currency_equals_def
      sameCurrencyConversion_def Currency_toString_def bn_multiply_def bn_arith_finite
      new_Currency_def new_Money_eq toNumber_def)

theorem convert_rule_witness:
  "convert \<lparr>amount = Fin 5, base = ''5'', decimals = 0, currency = \<lparr>code = ''EUR''\<rparr>\<rparr>
      (Num (Fin 1)) (CurrencyObj \<lparr>code = ''EUR''\<rparr>)
     = Inl (Error (''Converting to same currency '' @ [CHR 0x27] @ ''EUR'' @ [CHR 0x27]
         @ '' is not allowed''))
   \<and> (\<exists>m'. convert \<lparr>amount = Fin 1, base = ''1'', decimals = 0, currency = \<lparr>code = ''USD''\<rparr>\<rparr>
          (Num (Number_value (88 / 100))) (CurrencyObj \<lparr>code = ''EUR''\<rparr>) = Inr m'
        \<and> amount m' = Number_value (88 / 100)
        \<and> currency m' = \<lparr>code = ''EUR''\<rparr>)"
  using
    convert_rule [of "\<lparr>code = ''EUR''\<rparr>"
      "\<lparr>amount = Fin 5, base = ''5'', decimals = 0, currency = \<lparr>code = ''EUR''\<rparr>\<rparr>" 1 5]
    convert_rule [of "\<lparr>code = ''EUR''\<rparr>"
      "\<lparr>amount = Fin 1, base = ''1'', decimals = 0, currency = \<lparr>code = ''USD''\<rparr>\<rparr>"
      "7926335344172073 / 9007199254740992" 1]
  by (simp add: Number_0_88 decimal_of_1 decimal_of_0_88)

text \<open>
  C1: for two Money values of equal currency with finite amounts, add, subtract,
  multiply, divide (by an amount that is not zero), percentage and delta return the
  result of the operation on the decimal values of the amounts, converted to a number,
  and not the result of the host's binary floating-point operation.
\<close>

theorem exact_decimal_results:
  assumes "code (currency a) = code (currency b)" and "amount a = Fin p" and "amount b = Fin q"
  shows "(\<exists>m. add a (Inst b) = Inr m
            \<and> amount m = Number_value (decimal_of p + decimal_of q) \<and> currency m = currency a)
    \<and> (\<exists>m. subtract a (Inst b) = Inr m
            \<and> amount m = Number_value (decimal_of p - decimal_of q) \<and> currency m = currency a)
    \<and> (\<exists>m. multiply a (Inst b) = Inr m
            \<and> amount m = Number_value (decimal_of p * decimal_of q) \<and> currency m = currency a)
    \<and> (decimal_of q \<noteq> 0 \<longrightarrow> (\<exists>m. divide a (Inst b) = Inr m
            \<and> amount m = Number_value (decimal_of p / decimal_of q) \<and> currency m = currency a))
    \<and> (\<exists>m. percentage a (Num (Fin r)) = Inr m
            \<and> amount m = Number_value (decimal_of p * decimal_of r / 100)
            \<and> currency m = currency a)
    \<and> delta a (Inst b) = Inr (Number_value (decimal_of p - decimal_of q))"
proof -
  note v = validate_same [OF assms(1)]
  have ar: "arith_with (bn_arith f) a (Inst b)
      = Inr (make_Money (Number_value (f (decimal_of p) (decimal_of q))) (currency a))" for f
    using arith_with_result [OF v, of "bn_arith f" "Big (f (decimal_of p) (decimal_of q))"]
      assms(2,3)
    by (simp add: bn_arith_finite toNumber_def)
  have dv: "divide a (Inst b)
      = Inr (make_Money (Number_value (decimal_of p / decimal_of q)) (currency a))"
    if "decimal_of q \<noteq> 0"
    using arith_with_result [OF v, of bn_divide "Big (decimal_of p / decimal_of q)"]
      assms(2,3) that
    by (simp add: bn_divide_finite toNumber_def divide_def)
  show ?thesis
    using assms(2,3)
    by (simp add: add_def subtract_def multiply_def bn_add_def bn_subtract_def
        bn_multiply_def ar dv toNumber_def percentage_def bn_percentage_def bn_arith_finite
        new_Money_eq delta_def v operand_amount_def)
qed

theorem exact_decimal_results_witness:
  "(\<exists>m. add (\<lparr>amount = Number_value (1 / 10), base = ''1'', decimals = 1, currency = \<lparr>code = ''USD''\<rparr>\<rparr>) (Inst (\<lparr>amount = Number_value (2 / 10), base = ''2'', decimals = 1, currency = \<lparr>code = ''USD''\<rparr>\<rparr>)) = Inr m \<and> amount m = Number_value (3 / 10))
   \<and> fadd (Number_value (1 / 10)) (Number_value (2 / 10)) \<noteq> Number_value (3 / 10)
   \<and> (\<exists>m. subtract (\<lparr>amount = Number_value (3 / 10), base = ''3'', decimals = 1, currency = \<lparr>code = ''USD''\<rparr>\<rparr>) (Inst (\<lparr>amount = Number_value (2 / 10), base = ''2'', decimals = 1, currency = \<lparr>code = ''USD''\<rparr>\<rparr>)) = Inr m \<and> amount m = Number_value (1 / 10))
   \<and> (\<exists>m. multiply (\<lparr>amount = Number_value (1 / 10), base = ''1'', decimals = 1, currency = \<lparr>code = ''USD''\<rparr>\<rparr>) (Inst (\<lparr>amount = Number_value (2 / 10), base = ''2'', decimals = 1, currency = \<lparr>code = ''USD''\<rparr>\<rparr>)) = Inr m \<and> amount m = Number_value (2 / 100))
   \<and> fmul (Number_value (1 / 10)) (Number_value (2 / 10)) \<noteq> Number_value (2 / 100)
   \<and> (\<exists>m. divide (\<lparr>amount = Number_value (3 / 10), base = ''3'', decimals = 1, currency = \<lparr>code = ''USD''\<rparr>\<rparr>) (Inst (\<lparr>amount = Number_value (2 / 10), base = ''2'', decimals = 1, currency = \<lparr>code = ''USD''\<rparr>\<rparr>)) = Inr m \<and> amount m = Number_value (15 / 10))
   \<and> fdiv (Number_value (3 / 10)) (Number_value (2 / 10)) \<noteq> Number_value (15 / 10)
   \<and> (\<exists>m. percentage (\<lparr>amount = Number_value (3232 / 100), base = ''3232'', decimals = 2, currency = \<lparr>code = ''USD''\<rparr>\<rparr>) (Num (Fin 10)) = Inr m \<and> amount m = Number_value (3232 / 1000))
   \<and> delta (\<lparr>amount = Number_value (3 / 10), base = ''3'', decimals = 1, currency = \<lparr>code = ''USD''\<rparr>\<rparr>) (Inst (\<lparr>amount = Number_value (2 / 10), base = ''2'', decimals = 1, currency = \<lparr>code = ''USD''\<rparr>\<rparr>)) = Inr (Number_value (1 / 10))"
proof -
  let ?a1 = "\<lparr>amount = Number_value (1 / 10), base = ''1'', decimals = 1, currency = \<lparr>code = ''USD''\<rparr>\<rparr>"
  let ?a2 = "\<lparr>amount = Number_value (2 / 10), base = ''2'', decimals = 1, currency = \<lparr>code = ''USD''\<rparr>\<rparr>"
  let ?a3 = "\<lparr>amount = Number_value (3 / 10), base = ''3'', decimals = 1, currency = \<lparr>code = ''USD''\<rparr>\<rparr>"
  let ?a4 = "\<lparr>amount = Number_value (3232 / 100), base = ''3232'', decimals = 2, currency = \<lparr>code = ''USD''\<rparr>\<rparr>"
  have a1: "amount ?a1 = Fin (3602879701896397 / 36028797018963968)" by (simp add: Number_0_1)
  have a2: "amount ?a2 = Fin (3602879701896397 / 18014398509481984)" by (simp add: Number_0_2)
  have a3: "amount ?a3 = Fin (5404319552844595 / 18014398509481984)" by (simp add: Number_0_3)
  have a4: "amount ?a4 = Fin (4548635623644201 / 140737488355328)" by (simp add: Number_32_32)
  have c12: "code (currency ?a1) = code (currency ?a2)" by simp
  have c32: "code (currency ?a3) = code (currency ?a2)" by simp
  have c44: "code (currency ?a4) = code (currency ?a4)" by simp
  note r12 = exact_decimal_results [OF c12 a1 a2, of 10]
  note r32 = exact_decimal_results [OF c32 a3 a2, of 10]
  note r44 = exact_decimal_results [OF c44 a4 a4, of 10]
  have "\<exists>m. add ?a1 (Inst ?a2) = Inr m \<and> amount m = Number_value (3 / 10)"
    using r12 [THEN conjunct1] by (auto simp: decimal_of_0_1 decimal_of_0_2)
  moreover have "fadd (Number_value (1 / 10)) (Number_value (2 / 10)) \<noteq> Number_value (3 / 10)"
    by (simp add: Number_0_1 Number_0_2 Number_0_3 native_sum)
  moreover have "\<exists>m. subtract ?a3 (Inst ?a2) = Inr m \<and> amount m = Number_value (1 / 10)"
    using r32 [THEN conjunct2, THEN conjunct1] by (auto simp: decimal_of_0_3 decimal_of_0_2)
  moreover have "\<exists>m. multiply ?a1 (Inst ?a2) = Inr m \<and> amount m = Number_value (2 / 100)"
    using r12 [THEN conjunct2, THEN conjunct2, THEN conjunct1]
    by (auto simp: decimal_of_0_1 decimal_of_0_2)
  moreover have "fmul (Number_value (1 / 10)) (Number_value (2 / 10)) \<noteq> Number_value (2 / 100)"
    by (simp add: Number_0_1 Number_0_2 Number_0_02 native_product)
  moreover have "\<exists>m. divide ?a3 (Inst ?a2) = Inr m \<and> amount m = Number_value (15 / 10)"
    using r32 [THEN conjunct2, THEN conjunct2, THEN conjunct2, THEN conjunct1]
    by (auto simp: decimal_of_0_3 decimal_of_0_2)
  moreover have "fdiv (Number_value (3 / 10)) (Number_value (2 / 10)) \<noteq> Number_value (15 / 10)"
    by (simp add: Number_0_3 Number_0_2 Number_1_5 native_quotient)
  moreover have "\<exists>m. percentage ?a4 (Num (Fin 10)) = Inr m
      \<and> amount m = Number_value (3232 / 1000)"
    using r44 [THEN conjunct2, THEN conjunct2, THEN conjunct2, THEN conjunct2, THEN conjunct1]
    by (auto simp: decimal_of_32_32 decimal_of_10)
  moreover have "delta ?a3 (Inst ?a2) = Inr (Number_value (1 / 10))"
    using r32 [THEN conjunct2, THEN conjunct2, THEN conjunct2, THEN conjunct2, THEN conjunct2]
    by (simp add: decimal_of_0_3 decimal_of_0_2)
  ultimately show ?thesis by blast
qed

text \<open>
  C9, as the code has it: the comparisons are a strict total order within a currency on
  finite amounts. For two Money values of equal currency whose amounts are finite
  Numbers \<open>p\<close> and \<open>q\<close>: if \<open>p < q\<close> then \<^verbatim>\<open>isLessThan\<close> is true and
  \<^verbatim>\<open>isGreaterThan\<close> is false, and exactly one of \<^verbatim>\<open>isLessThan\<close>, \<^verbatim>\<open>isEqual\<close> and
  \<^verbatim>\<open>isGreaterThan\<close> holds.
\<close>

theorem comparisons_total_order:
  assumes "code (currency a) = code (currency b)"
    and "amount a = Fin p" and "amount b = Fin q"
    and "Number_value p = Fin p" and "Number_value q = Fin q"
  shows "(p < q \<longrightarrow> isLessThan a (Inst b) = Inr True \<and> isGreaterThan a (Inst b) = Inr False)
    \<and> (isLessThan a (Inst b) = Inr True \<and> isEqual a (Inst b) = Inr False
          \<and> isGreaterThan a (Inst b) = Inr False
        \<or> isLessThan a (Inst b) = Inr False \<and> isEqual a (Inst b) = Inr True
          \<and> isGreaterThan a (Inst b) = Inr False
        \<or> isLessThan a (Inst b) = Inr False \<and> isEqual a (Inst b) = Inr False
          \<and> isGreaterThan a (Inst b) = Inr True)"
proof -
  note c = compare_with_finite [OF validate_same [OF assms(1)] assms(2,3)]
  have lt: "isLessThan a (Inst b) = Inr (decimal_of p < decimal_of q)"
    and eq: "isEqual a (Inst b) = Inr (decimal_of p = decimal_of q)"
    and gt: "isGreaterThan a (Inst b) = Inr (decimal_of q < decimal_of p)"
    by (simp_all add: isLessThan_def isEqual_def isGreaterThan_def c)
  have "decimal_of p < decimal_of q" if "p < q"
    using decimal_of_strict_mono [OF assms(4,5) that] .
  then show ?thesis unfolding lt eq gt by auto
qed

theorem comparisons_total_order_witness:
  "isLessThan \<lparr>amount = Fin 1, base = ''1'', decimals = 0, currency = \<lparr>code = ''USD''\<rparr>\<rparr>
      (Inst \<lparr>amount = Fin 2, base = ''2'', decimals = 0, currency = \<lparr>code = ''USD''\<rparr>\<rparr>)
     = Inr True
   \<and> isGreaterThan \<lparr>amount = Fin 1, base = ''1'', decimals = 0, currency = \<lparr>code = ''USD''\<rparr>\<rparr>
      (Inst \<lparr>amount = Fin 2, base = ''2'', decimals = 0, currency = \<lparr>code = ''USD''\<rparr>\<rparr>)
     = Inr False
   \<and> isEqual \<lparr>amount = Fin 1, base = ''1'', decimals = 0, currency = \<lparr>code = ''USD''\<rparr>\<rparr>
      (Inst \<lparr>amount = Fin 2, base = ''2'', decimals = 0, currency = \<lparr>code = ''USD''\<rparr>\<rparr>)
     = Inr False"
  using comparisons_total_order [of
      "\<lparr>amount = Fin 1, base = ''1'', decimals = 0, currency = \<lparr>code = ''USD''\<rparr>\<rparr>"
      "\<lparr>amount = Fin 2, base = ''2'', decimals = 0, currency = \<lparr>code = ''USD''\<rparr>\<rparr>" 1 2]
  by (auto simp: Number_1 Number_2)

text \<open>
  C9, as the claim words it, fails: the constructor accepts \<^verbatim>\<open>NaN\<close>, and of two Money
  values with that amount and the same currency none of \<^verbatim>\<open>isLessThan\<close>, \<^verbatim>\<open>isEqual\<close>
  and \<^verbatim>\<open>isGreaterThan\<close> holds.
\<close>

theorem not_a_number_compares_false:
  "Constructor (Positional [Num NaN])
     = Inr \<lparr>amount = NaN, base = ''NaN'', decimals = 0, currency = \<lparr>code = ''EUR''\<rparr>\<rparr>
   \<and> isLessThan \<lparr>amount = NaN, base = ''NaN'', decimals = 0, currency = \<lparr>code = ''EUR''\<rparr>\<rparr>
        (Inst \<lparr>amount = NaN, base = ''NaN'', decimals = 0, currency = \<lparr>code = ''EUR''\<rparr>\<rparr>)
     = Inr False
   \<and> isEqual \<lparr>amount = NaN, base = ''NaN'', decimals = 0, currency = \<lparr>code = ''EUR''\<rparr>\<rparr>
        (Inst \<lparr>amount = NaN, base = ''NaN'', decimals = 0, currency = \<lparr>code = ''EUR''\<rparr>\<rparr>)
     = Inr False
   \<and> isGreaterThan \<lparr>amount = NaN, base = ''NaN'', decimals = 0, currency = \<lparr>code = ''EUR''\<rparr>\<rparr>
        (Inst \<lparr>amount = NaN, base = ''NaN'', decimals = 0, currency = \<lparr>code = ''EUR''\<rparr>\<rparr>)
     = Inr False"
  by (simp add: Constructor_def data_amount_def typeof_object_def check_Number_def
      make_Money_NaN isLessThan_def isEqual_def isGreaterThan_def compare_with_def
      validate_same operand_amount_def bn_compare_def new_BigNumber_def)

end
